theory Spec2Isabelle
  imports Complex_Main "HOL-Library.Multiset"
begin

section \<open>Values, documents and the document store\<close>

text \<open>
  The service keeps its records in one collection of a document store. A stored document
  is a dictionary from field names to values; the values the handlers write are strings,
  floats, booleans, the null value, calendar dates and date-times. Floats are modelled as
  real numbers. The store's own row key (\<open>_id\<close>), which the handlers never read, is
  left out.
\<close>

datatype date = Date nat nat nat

datatype time = Time nat nat nat nat

datatype datetime = DateTime date time

datatype val = VNone | VStr string | VFloat real | VBool bool | VDate date | VDateTime datetime

type_synonym doc = "string \<rightharpoonup> val"

type_synonym query = "(string \<times> val) list"

datatype exn =
    ValidationError
  | TypeError string
  | AttributeError string
  | ValueError string
  | LibraryError string

datatype error = HTTPException nat string | Uncaught exn

text \<open>\<open>datetime.min.time()\<close>, \<open>datetime.combine\<close> and \<open>datetime.date()\<close>.\<close>

definition min_time :: time where
  "min_time = Time 0 0 0 0"

definition combine :: "date \<Rightarrow> time \<Rightarrow> datetime" where
  "combine d t = DateTime d t"

fun date_part :: "datetime \<Rightarrow> date" where
  "date_part (DateTime d t) = d"

text \<open>
  A query document \<open>{k1: v1, ..., kn: vn}\<close> selects the documents holding exactly these
  values under these keys.
\<close>

definition matches :: "query \<Rightarrow> doc \<Rightarrow> bool" where
  "matches q d = list_all (\<lambda>(k, v). d k = Some v) q"

definition find_docs :: "query \<Rightarrow> doc list \<Rightarrow> doc list" where
  "find_docs q db = filter (matches q) db"

definition to_list :: "nat \<Rightarrow> 'a list \<Rightarrow> 'a list" where
  "to_list n xs = take n xs"

definition find_one :: "query \<Rightarrow> doc list \<Rightarrow> doc option" where
  "find_one q db = List.find (matches q) db"

definition insert_one :: "doc \<Rightarrow> doc list \<Rightarrow> doc list" where
  "insert_one d db = db @ [d]"

definition count_documents :: "query \<Rightarrow> doc list \<Rightarrow> nat" where
  "count_documents q db = length (filter (matches q) db)"

text \<open>
  \<open>update_one\<close> with a \<open>$set\<close> document: the first document selected by the query gets
  the new values, every other document stays; the result carries \<open>matched_count\<close>.
\<close>

definition set_fields :: "(string \<times> val) list \<Rightarrow> doc \<Rightarrow> doc" where
  "set_fields upd d = d ++ map_of upd"

fun update_one :: "query \<Rightarrow> (string \<times> val) list \<Rightarrow> doc list \<Rightarrow> nat \<times> doc list" where
  "update_one q upd [] = (0, [])"
| "update_one q upd (d # ds) =
     (if matches q d then (1, set_fields upd d # ds)
      else (case update_one q upd ds of (n, ds') \<Rightarrow> (n, d # ds')))"

section \<open>Models\<close>


record Service =
  id_field :: string
  name :: string
  service_type :: string
  provider :: string
  creation_date :: date
  last_renewal_date :: "date option"
  next_renewal_date :: "date option"
  annual_fee :: real
  currency :: string
  status :: string
  notes_field :: "string option"
  is_deleted :: bool
  created_at :: datetime
  updated_at :: datetime

record ServiceCreate =
  c_name :: string
  c_service_type :: string
  c_provider :: string
  c_creation_date :: date
  c_last_renewal_date :: "date option"
  c_next_renewal_date :: "date option"
  c_annual_fee :: real
  c_currency :: string
  c_status :: string
  c_notes :: "string option"

record ServiceUpdate =
  u_name :: "string option"
  u_service_type :: "string option"
  u_provider :: "string option"
  u_creation_date :: "date option"
  u_last_renewal_date :: "date option"
  u_next_renewal_date :: "date option"
  u_annual_fee :: "real option"
  u_currency :: "string option"
  u_status :: "string option"
  u_notes :: "string option"

text \<open>An optional field as a value: \<open>None\<close> is the null value.\<close>

fun opt :: "('a \<Rightarrow> val) \<Rightarrow> 'a option \<Rightarrow> val" where
  "opt f None = VNone"
| "opt f (Some x) = f x"

text \<open>The \<open>.dict()\<close> of each model, in field order.\<close>

definition Service_dict :: "Service \<Rightarrow> (string \<times> val) list" where
  "Service_dict s =
     [(''id'', VStr (id_field s)),
      (''name'', VStr (name s)),
      (''service_type'', VStr (service_type s)),
      (''provider'', VStr (provider s)),
      (''creation_date'', VDate (creation_date s)),
      (''last_renewal_date'', opt VDate (last_renewal_date s)),
      (''next_renewal_date'', opt VDate (next_renewal_date s)),
      (''annual_fee'', VFloat (annual_fee s)),
      (''currency'', VStr (currency s)),
      (''status'', VStr (status s)),
      (''notes'', opt VStr (notes_field s)),
      (''is_deleted'', VBool (is_deleted s)),
      (''created_at'', VDateTime (created_at s)),
      (''updated_at'', VDateTime (updated_at s))]"

definition ServiceUpdate_dict :: "ServiceUpdate \<Rightarrow> (string \<times> val) list" where
  "ServiceUpdate_dict u =
     [(''name'', opt VStr (u_name u)),
      (''service_type'', opt VStr (u_service_type u)),
      (''provider'', opt VStr (u_provider u)),
      (''creation_date'', opt VDate (u_creation_date u)),
      (''last_renewal_date'', opt VDate (u_last_renewal_date u)),
      (''next_renewal_date'', opt VDate (u_next_renewal_date u)),
      (''annual_fee'', opt VFloat (u_annual_fee u)),
      (''currency'', opt VStr (u_currency u)),
      (''status'', opt VStr (u_status u)),
      (''notes'', opt VStr (u_notes u))]"

text \<open>
  \<open>Service(**service_data.dict())\<close> in \<open>create_service\<close>: the ten fields of the request,
  and the defaults of the four others. The identifier and the two timestamps come from
  \<open>uuid.uuid4()\<close> and two calls of \<open>datetime.utcnow()\<close>; they are arguments here.
\<close>

definition Service_of_create :: "string \<Rightarrow> datetime \<Rightarrow> datetime \<Rightarrow> ServiceCreate \<Rightarrow> Service" where
  "Service_of_create uuid4 utcnow1 utcnow2 c =
     \<lparr> id_field = uuid4,
       name = c_name c,
       service_type = c_service_type c,
       provider = c_provider c,
       creation_date = c_creation_date c,
       last_renewal_date = c_last_renewal_date c,
       next_renewal_date = c_next_renewal_date c,
       annual_fee = c_annual_fee c,
       currency = c_currency c,
       status = c_status c,
       notes_field = c_notes c,
       is_deleted = False,
       created_at = utcnow1,
       updated_at = utcnow2 \<rparr>"

text \<open>
  \<open>Service(**document)\<close> on a stored document. Each field is read with its type: a date
  field takes a date or the date of a date-time, an optional field takes the null value
  or a missing key as \<open>None\<close>, \<open>currency\<close>, \<open>status\<close> and \<open>is_deleted\<close> fall
  back on their defaults when the key is missing. Any other value is a validation error:
  the model does not follow the validator's coercions between types, and it asks for the
  keys \<open>id\<close>, \<open>created_at\<close> and \<open>updated_at\<close>, which every document written by the
  handlers has.
\<close>

definition get_str :: "doc \<Rightarrow> string \<Rightarrow> string option" where
  "get_str d k = (case d k of Some (VStr s) \<Rightarrow> Some s | _ \<Rightarrow> None)"

definition get_str_default :: "doc \<Rightarrow> string \<Rightarrow> string \<Rightarrow> string option" where
  "get_str_default d k dflt =
     (case d k of None \<Rightarrow> Some dflt | Some (VStr s) \<Rightarrow> Some s | _ \<Rightarrow> None)"

definition get_opt_str :: "doc \<Rightarrow> string \<Rightarrow> string option option" where
  "get_opt_str d k =
     (case d k of None \<Rightarrow> Some None | Some VNone \<Rightarrow> Some None
      | Some (VStr s) \<Rightarrow> Some (Some s) | _ \<Rightarrow> None)"

definition get_date :: "doc \<Rightarrow> string \<Rightarrow> date option" where
  "get_date d k =
     (case d k of Some (VDate x) \<Rightarrow> Some x | Some (VDateTime dt) \<Rightarrow> Some (date_part dt)
      | _ \<Rightarrow> None)"

definition get_opt_date :: "doc \<Rightarrow> string \<Rightarrow> date option option" where
  "get_opt_date d k =
     (case d k of None \<Rightarrow> Some None | Some VNone \<Rightarrow> Some None
      | Some (VDate x) \<Rightarrow> Some (Some x) | Some (VDateTime dt) \<Rightarrow> Some (Some (date_part dt))
      | _ \<Rightarrow> None)"

definition get_float :: "doc \<Rightarrow> string \<Rightarrow> real option" where
  "get_float d k = (case d k of Some (VFloat x) \<Rightarrow> Some x | _ \<Rightarrow> None)"

definition get_bool_default :: "doc \<Rightarrow> string \<Rightarrow> bool \<Rightarrow> bool option" where
  "get_bool_default d k dflt =
     (case d k of None \<Rightarrow> Some dflt | Some (VBool b) \<Rightarrow> Some b | _ \<Rightarrow> None)"

definition get_datetime :: "doc \<Rightarrow> string \<Rightarrow> datetime option" where
  "get_datetime d k = (case d k of Some (VDateTime dt) \<Rightarrow> Some dt | _ \<Rightarrow> None)"

definition Service_fields :: "doc \<Rightarrow> Service option" where
  "Service_fields d =
     Option.bind (get_str d ''id'') (\<lambda>v1.
     Option.bind (get_str d ''name'') (\<lambda>v2.
     Option.bind (get_str d ''service_type'') (\<lambda>v3.
     Option.bind (get_str d ''provider'') (\<lambda>v4.
     Option.bind (get_date d ''creation_date'') (\<lambda>v5.
     Option.bind (get_opt_date d ''last_renewal_date'') (\<lambda>v6.
     Option.bind (get_opt_date d ''next_renewal_date'') (\<lambda>v7.
     Option.bind (get_float d ''annual_fee'') (\<lambda>v8.
     Option.bind (get_str_default d ''currency'' ''TRY'') (\<lambda>v9.
     Option.bind (get_str_default d ''status'' ''active'') (\<lambda>v10.
     Option.bind (get_opt_str d ''notes'') (\<lambda>v11.
     Option.bind (get_bool_default d ''is_deleted'' False) (\<lambda>v12.
     Option.bind (get_datetime d ''created_at'') (\<lambda>v13.
     Option.bind (get_datetime d ''updated_at'') (\<lambda>v14.
       Some \<lparr> id_field = v1, name = v2, service_type = v3, provider = v4,
              creation_date = v5, last_renewal_date = v6, next_renewal_date = v7,
              annual_fee = v8, currency = v9, status = v10, notes_field = v11,
              is_deleted = v12, created_at = v13, updated_at = v14 \<rparr>))))))))))))))"

definition Service_validate :: "doc \<Rightarrow> error + Service" where
  "Service_validate d =
     (case Service_fields d of None \<Rightarrow> Inl (Uncaught ValidationError) | Some s \<Rightarrow> Inr s)"

text \<open>A list comprehension whose body may raise: the first exception ends it.\<close>

fun map_result :: "('a \<Rightarrow> 'e + 'b) \<Rightarrow> 'a list \<Rightarrow> 'e + 'b list" where
  "map_result f [] = Inr []"
| "map_result f (x # xs) =
     (case f x of Inl e \<Rightarrow> Inl e
      | Inr y \<Rightarrow> (case map_result f xs of Inl e \<Rightarrow> Inl e | Inr ys \<Rightarrow> Inr (y # ys)))"

section \<open>Authentication\<close>

definition verify_token :: "string \<Rightarrow> error + bool" where
  "verify_token credentials =
     (if credentials \<noteq> ''authenticated''
      then Inl (HTTPException 401 ''Invalid authentication'')
      else Inr True)"


section \<open>Service routes\<close>

text \<open>The loop that turns every date (not date-time) of a dictionary into a date-time at midnight.\<close>

fun date_to_datetime :: "val \<Rightarrow> val" where
  "date_to_datetime (VDate d) = VDateTime (combine d min_time)"
| "date_to_datetime v = v"

definition dates_to_datetimes :: "(string \<times> val) list \<Rightarrow> (string \<times> val) list" where
  "dates_to_datetimes kvs = map (\<lambda>(k, v). (k, date_to_datetime v)) kvs"

definition not_deleted :: query where
  "not_deleted = [(''is_deleted'', VBool False)]"

definition by_id :: "string \<Rightarrow> query" where
  "by_id service_id = [(''id'', VStr service_id), (''is_deleted'', VBool False)]"

definition not_found :: error where
  "not_found = HTTPException 404 ''Service not found''"

definition get_services :: "doc list \<Rightarrow> error + Service list" where
  "get_services db = map_result Service_validate (to_list 1000 (find_docs not_deleted db))"

definition create_service ::
  "string \<Rightarrow> datetime \<Rightarrow> datetime \<Rightarrow> ServiceCreate \<Rightarrow> doc list \<Rightarrow> Service \<times> doc list" where
  "create_service uuid4 utcnow1 utcnow2 service_data db =
     (let service_obj = Service_of_create uuid4 utcnow1 utcnow2 service_data;
          service_data_for_db = dates_to_datetimes (Service_dict service_obj)
      in (service_obj, insert_one (map_of service_data_for_db) db))"

definition get_service :: "string \<Rightarrow> doc list \<Rightarrow> error + Service" where
  "get_service service_id db =
     (case find_one (by_id service_id) db of
        None \<Rightarrow> Inl not_found
      | Some service \<Rightarrow> Service_validate service)"

definition update_data_of :: "datetime \<Rightarrow> ServiceUpdate \<Rightarrow> (string \<times> val) list" where
  "update_data_of utcnow service_data =
     dates_to_datetimes
       (filter (\<lambda>(k, v). v \<noteq> VNone) (ServiceUpdate_dict service_data)
        @ [(''updated_at'', VDateTime utcnow)])"

definition update_service ::
  "datetime \<Rightarrow> string \<Rightarrow> ServiceUpdate \<Rightarrow> doc list \<Rightarrow> (error + Service) \<times> doc list" where
  "update_service utcnow service_id service_data db =
     (case update_one (by_id service_id) (update_data_of utcnow service_data) db of
        (matched_count, db') \<Rightarrow>
          if matched_count = 0 then (Inl not_found, db')
          else (case find_one [(''id'', VStr service_id)] db' of
                  None \<Rightarrow> (Inl (Uncaught (TypeError ''argument after ** must be a mapping, not NoneType'')), db')
                | Some updated_service \<Rightarrow> (Service_validate updated_service, db')))"

definition delete_service ::
  "datetime \<Rightarrow> string \<Rightarrow> doc list \<Rightarrow> (error + (string \<times> string) list) \<times> doc list" where
  "delete_service utcnow service_id db =
     (case update_one (by_id service_id)
             [(''is_deleted'', VBool True), (''updated_at'', VDateTime utcnow)] db of
        (matched_count, db') \<Rightarrow>
          if matched_count = 0 then (Inl not_found, db')
          else (Inr [(''message'', ''Service deleted successfully'')], db'))"

section \<open>Dashboard statistics\<close>

definition active :: query where
  "active = [(''is_deleted'', VBool False), (''status'', VStr ''active'')]"

text \<open>
  The aggregation stages. \<open>$match\<close> keeps the documents a query selects. \<open>$group\<close> with
  the constant key and \<open>$sum\<close> of a field folds the documents that come in into one
  group, and gives no group when none comes in; a value that is not a number adds nothing.
  \<open>$group\<close> by a field with \<open>$sum: 1\<close> keeps one counter per value of the field, a
  missing field counting as the null value. The store leaves the order of the groups open;
  the model emits them in the order in which their first document arrives.
\<close>

definition match_stage :: "query \<Rightarrow> doc list \<Rightarrow> doc list" where
  "match_stage q ds = filter (matches q) ds"

fun numeric :: "val option \<Rightarrow> real" where
  "numeric (Some (VFloat x)) = x"
| "numeric v = 0"

definition group_sum :: "string \<Rightarrow> doc list \<Rightarrow> real list" where
  "group_sum k ds = (if ds = [] then [] else [foldl (\<lambda>acc d. acc + numeric (d k)) 0 ds])"

fun field_or_null :: "val option \<Rightarrow> val" where
  "field_or_null None = VNone"
| "field_or_null (Some v) = v"

fun bump :: "val \<Rightarrow> (val \<times> nat) list \<Rightarrow> (val \<times> nat) list" where
  "bump k [] = [(k, 1)]"
| "bump k ((k', n) # gs) = (if k = k' then (k', n + 1) # gs else (k', n) # bump k gs)"

definition group_count :: "string \<Rightarrow> doc list \<Rightarrow> (val \<times> nat) list" where
  "group_count k ds = foldl (\<lambda>gs d. bump (field_or_null (d k)) gs) [] ds"

record dashboard_stats =
  total_services :: nat
  active_services :: nat
  total_annual_fees :: real
  services_by_type :: "(val \<times> nat) list"

definition get_dashboard_stats :: "doc list \<Rightarrow> dashboard_stats" where
  "get_dashboard_stats db =
     (let total_fees_result = to_list 1 (group_sum ''annual_fee'' (match_stage active db))
      in \<lparr> total_services = count_documents not_deleted db,
           active_services = count_documents active db,
           total_annual_fees = (case total_fees_result of [] \<Rightarrow> 0 | r # rs \<Rightarrow> r),
           services_by_type = to_list 10 (group_count ''service_type'' (match_stage active db)) \<rparr>)"

section \<open>Exports\<close>

text \<open>\<open>dict.get\<close> with and without a default, and the truth value of a value.\<close>

definition dict_get :: "doc \<Rightarrow> string \<Rightarrow> val" where
  "dict_get d k = (case d k of None \<Rightarrow> VNone | Some v \<Rightarrow> v)"

definition dict_get_default :: "doc \<Rightarrow> string \<Rightarrow> val \<Rightarrow> val" where
  "dict_get_default d k dflt = (case d k of None \<Rightarrow> dflt | Some v \<Rightarrow> v)"

fun truthy :: "val \<Rightarrow> bool" where
  "truthy VNone = False"
| "truthy (VStr s) = (s \<noteq> [])"
| "truthy (VFloat x) = (x \<noteq> 0)"
| "truthy (VBool b) = b"
| "truthy (VDate d) = True"
| "truthy (VDateTime dt) = True"

text \<open>Decimal digits, and \<open>strftime("%d.%m.%Y")\<close> (the year printed with four digits).\<close>

definition digit_char :: "nat \<Rightarrow> char" where
  "digit_char n = char_of (48 + n)"

fun digits :: "nat \<Rightarrow> string" where
  "digits n = (if n < 10 then [digit_char n] else digits (n div 10) @ [digit_char (n mod 10)])"

definition pad :: "nat \<Rightarrow> string \<Rightarrow> string" where
  "pad w s = replicate (w - length s) (CHR ''0'') @ s"

fun strftime_dmY :: "date \<Rightarrow> string" where
  "strftime_dmY (Date y m d) = pad 2 (digits d) @ ''.'' @ pad 2 (digits m) @ ''.'' @ pad 4 (digits y)"

fun type_name :: "val \<Rightarrow> string" where
  "type_name VNone = ''NoneType''"
| "type_name (VStr s) = ''str''"
| "type_name (VFloat x) = ''float''"
| "type_name (VBool b) = ''bool''"
| "type_name (VDate d) = ''datetime.date''"
| "type_name (VDateTime dt) = ''datetime.datetime''"

text \<open>
  The texts of the interpreter's own exceptions follow CPython's wording; names appear in
  single quotes there.
\<close>

definition quoted :: "string \<Rightarrow> string" where
  "quoted s = [CHR 0x27] @ s @ [CHR 0x27]"

fun strftime_val :: "val \<Rightarrow> exn + string" where
  "strftime_val (VDate d) = Inr (strftime_dmY d)"
| "strftime_val (VDateTime dt) = Inr (strftime_dmY (date_part dt))"
| "strftime_val v =
     Inl (AttributeError (quoted (type_name v) @ '' object has no attribute '' @ quoted ''strftime''))"

text \<open>\<open>service.get(k, "").strftime("%d.%m.%Y") if service.get(k) else blank\<close>.\<close>

definition date_cell :: "doc \<Rightarrow> string \<Rightarrow> string \<Rightarrow> exn + string" where
  "date_cell service k blank =
     (if truthy (dict_get service k) then strftime_val (dict_get_default service k (VStr []))
      else Inr blank)"

definition status_label :: "doc \<Rightarrow> string" where
  "status_label service = (if dict_get service ''status'' = VStr ''active'' then ''Aktif'' else ''Pasif'')"

text \<open>
  The format \<open>:,.0f\<close>: the number rounded to an integer, halves to the even
  neighbour, the digits grouped by three, the sign of a negative number kept.
\<close>

definition round_half_even :: "real \<Rightarrow> nat" where
  "round_half_even x =
     (let f = \<lfloor>x\<rfloor>; r = x - of_int f
      in nat (if r < 1 / 2 then f else if 1 / 2 < r then f + 1 else if even f then f else f + 1))"

fun group_digits :: "nat \<Rightarrow> string" where
  "group_digits n =
     (if n < 1000 then digits n
      else group_digits (n div 1000) @ '','' @ pad 3 (digits (n mod 1000)))"

definition format_comma_0f :: "real \<Rightarrow> string" where
  "format_comma_0f x = (if x < 0 then ''-'' else []) @ group_digits (round_half_even \<bar>x\<bar>)"

fun format_fee :: "val \<Rightarrow> exn + string" where
  "format_fee (VFloat x) = Inr (format_comma_0f x)"
| "format_fee (VBool b) = Inr (if b then ''1'' else ''0'')"
| "format_fee (VDate d) = Inr '',.0f''"
| "format_fee (VDateTime dt) = Inr '',.0f''"
| "format_fee (VStr s) =
     Inl (ValueError (''Unknown format code '' @ quoted ''f'' @ '' for object of type '' @ quoted ''str''))"
| "format_fee VNone = Inl (TypeError ''unsupported format string passed to NoneType.__format__'')"

text \<open>The text of an exception, \<open>str(e)\<close>.\<close>

fun str_exn :: "exn \<Rightarrow> string" where
  "str_exn ValidationError = ''validation error''"
| "str_exn (TypeError m) = m"
| "str_exn (AttributeError m) = m"
| "str_exn (ValueError m) = m"
| "str_exn (LibraryError m) = m"

text \<open>
  The column names and the currency sign hold letters outside ASCII; they are written as
  their UTF-8 bytes.
\<close>

definition lira :: string where
  "lira = [CHR 0xE2, CHR 0x82, CHR 0xBA]"

definition col_hizmet_adi :: string where
  "col_hizmet_adi = ''Hizmet Ad'' @ [CHR 0xC4, CHR 0xB1]"

definition col_hizmet_turu :: string where
  "col_hizmet_turu = ''Hizmet T'' @ [CHR 0xC3, CHR 0xBC] @ ''r'' @ [CHR 0xC3, CHR 0xBC]"

definition col_saglayici :: string where
  "col_saglayici = ''Sa'' @ [CHR 0xC4, CHR 0x9F] @ ''lay'' @ [CHR 0xC4, CHR 0xB1] @ ''c'' @ [CHR 0xC4, CHR 0xB1]"

definition col_yillik_ucret :: string where
  "col_yillik_ucret =
     ''Y'' @ [CHR 0xC4, CHR 0xB1] @ ''ll'' @ [CHR 0xC4, CHR 0xB1] @ ''k '' @ [CHR 0xC3, CHR 0x9C] @ ''cret''"

definition col_olusturma_tarihi :: string where
  "col_olusturma_tarihi = ''Olu'' @ [CHR 0xC5, CHR 0x9F] @ ''turma Tarihi''"

definition col_tur :: string where
  "col_tur = ''T'' @ [CHR 0xC3, CHR 0xBC] @ ''r''"

text \<open>
  One spreadsheet row. The entries of the dictionary are evaluated in order, so the first
  date that cannot be formatted raises.
\<close>

definition excel_row :: "doc \<Rightarrow> exn + (string \<times> val) list" where
  "excel_row service =
     (case date_cell service ''creation_date'' [] of Inl e \<Rightarrow> Inl e | Inr created \<Rightarrow>
      case date_cell service ''last_renewal_date'' [] of Inl e \<Rightarrow> Inl e | Inr last_renewal \<Rightarrow>
      case date_cell service ''next_renewal_date'' [] of Inl e \<Rightarrow> Inl e | Inr next_renewal \<Rightarrow>
        Inr [(col_hizmet_adi, dict_get_default service ''name'' (VStr [])),
             (col_hizmet_turu, dict_get_default service ''service_type'' (VStr [])),
             (col_saglayici, dict_get_default service ''provider'' (VStr [])),
             (col_yillik_ucret, dict_get_default service ''annual_fee'' (VFloat 0)),
             (''Para Birimi'', dict_get_default service ''currency'' (VStr ''TRY'')),
             (col_olusturma_tarihi, VStr created),
             (''Son Yenileme'', VStr last_renewal),
             (''Sonraki Yenileme'', VStr next_renewal),
             (''Durum'', VStr (status_label service)),
             (''Notlar'', dict_get_default service ''notes'' (VStr []))])"

definition pdf_header :: "val list" where
  "pdf_header =
     [VStr ''Hizmet'', VStr col_tur, VStr col_saglayici, VStr col_yillik_ucret,
      VStr ''Sonraki Yenileme'', VStr ''Durum'']"

definition pdf_row :: "doc \<Rightarrow> exn + val list" where
  "pdf_row service =
     (case format_fee (dict_get_default service ''annual_fee'' (VFloat 0)) of Inl e \<Rightarrow> Inl e | Inr fee \<Rightarrow>
      case date_cell service ''next_renewal_date'' ''-'' of Inl e \<Rightarrow> Inl e | Inr next_renewal \<Rightarrow>
        Inr [dict_get_default service ''name'' (VStr []),
             dict_get_default service ''service_type'' (VStr []),
             dict_get_default service ''provider'' (VStr []),
             VStr (lira @ fee),
             VStr next_renewal,
             VStr (status_label service)])"

text \<open>
  Writing the workbook and building the PDF are the work of two libraries. They are
  arguments of the handlers: each takes the prepared rows and gives the bytes of the
  document, or raises.
\<close>

type_synonym xlsx_writer = "(string \<times> val) list list \<Rightarrow> exn + string"

type_synonym pdf_builder = "val list list \<Rightarrow> exn + string"

record StreamingResponse =
  body :: string
  media_type :: string
  content_disposition :: string

definition excel_document :: "xlsx_writer \<Rightarrow> doc list \<Rightarrow> exn + string" where
  "excel_document write_xlsx db =
     (case map_result excel_row (to_list 1000 (find_docs not_deleted db)) of
        Inl e \<Rightarrow> Inl e
      | Inr excel_data \<Rightarrow> write_xlsx excel_data)"

definition export_services_excel :: "xlsx_writer \<Rightarrow> doc list \<Rightarrow> error + StreamingResponse" where
  "export_services_excel write_xlsx db =
     (case excel_document write_xlsx db of
        Inr bytes \<Rightarrow>
          Inr \<lparr> body = bytes,
                media_type = ''application/vnd.openxmlformats-officedocument.spreadsheetml.sheet'',
                content_disposition = ''attachment; filename=hizmetler.xlsx'' \<rparr>
      | Inl e \<Rightarrow> Inl (HTTPException 500 (''Excel export failed: '' @ str_exn e)))"

definition pdf_document :: "pdf_builder \<Rightarrow> doc list \<Rightarrow> exn + string" where
  "pdf_document build db =
     (case map_result pdf_row (to_list 1000 (find_docs not_deleted db)) of
        Inl e \<Rightarrow> Inl e
      | Inr rows \<Rightarrow> build (pdf_header # rows))"

definition export_services_pdf :: "pdf_builder \<Rightarrow> doc list \<Rightarrow> error + StreamingResponse" where
  "export_services_pdf build db =
     (case pdf_document build db of
        Inr bytes \<Rightarrow>
          Inr \<lparr> body = bytes,
                media_type = ''application/pdf'',
                content_disposition = ''attachment; filename=hizmetler.pdf'' \<rparr>
      | Inl e \<Rightarrow> Inl (HTTPException 500 (''PDF export failed: '' @ str_exn e)))"

section \<open>The protected routes\<close>

text \<open>
  Every route but the login declares \<open>Depends(verify_token)\<close>: the token check runs
  first, and the body of the handler only when it returns. What a handler draws from its
  surroundings (a fresh identifier, the clock, the two document libraries) is gathered in
  a record.
\<close>

datatype request =
    GetServices
  | CreateService ServiceCreate
  | GetService string
  | UpdateService string ServiceUpdate
  | DeleteService string
  | GetDashboardStats
  | ExportExcel
  | ExportPdf

datatype response =
    Services "Service list"
  | OneService Service
  | Message "(string \<times> string) list"
  | Stats dashboard_stats
  | File StreamingResponse

record runtime =
  uuid4 :: string
  utcnow :: datetime
  utcnow_again :: datetime
  to_excel :: xlsx_writer
  build_pdf :: pdf_builder

fun handler :: "runtime \<Rightarrow> request \<Rightarrow> doc list \<Rightarrow> (error + response) \<times> doc list" where
  "handler rt GetServices db = (map_sum id Services (get_services db), db)"
| "handler rt (CreateService service_data) db =
     (case create_service (uuid4 rt) (utcnow rt) (utcnow_again rt) service_data db of
        (service_obj, db') \<Rightarrow> (Inr (OneService service_obj), db'))"
| "handler rt (GetService service_id) db = (map_sum id OneService (get_service service_id db), db)"
| "handler rt (UpdateService service_id service_data) db =
     (case update_service (utcnow rt) service_id service_data db of
        (r, db') \<Rightarrow> (map_sum id OneService r, db'))"
| "handler rt (DeleteService service_id) db =
     (case delete_service (utcnow rt) service_id db of
        (r, db') \<Rightarrow> (map_sum id Message r, db'))"
| "handler rt GetDashboardStats db = (Inr (Stats (get_dashboard_stats db)), db)"
| "handler rt ExportExcel db = (map_sum id File (export_services_excel (to_excel rt) db), db)"
| "handler rt ExportPdf db = (map_sum id File (export_services_pdf (build_pdf rt) db), db)"

definition route :: "runtime \<Rightarrow> string \<Rightarrow> request \<Rightarrow> doc list \<Rightarrow> (error + response) \<times> doc list" where
  "route rt credentials req db =
     (case verify_token credentials of
        Inl e \<Rightarrow> (Inl e, db)
      | Inr authenticated \<Rightarrow> handler rt req db)"

section \<open>Sequences of requests\<close>

text \<open>
  A client sends one request after the other, each with its bearer credential; the store
  a request leaves is the store the next one finds. A failed request leaves the store
  as its handler left it.
\<close>

fun run :: "(runtime \<times> string \<times> request) list \<Rightarrow> doc list \<Rightarrow> doc list" where
  "run [] db = db"
| "run ((rt, credentials, req) # calls) db = run calls (snd (route rt credentials req db))"

text \<open>The request body \<open>{}\<close> of a partial update: no field is given.\<close>

definition empty_update :: ServiceUpdate where
  "empty_update =
     \<lparr> u_name = None, u_service_type = None, u_provider = None, u_creation_date = None,
       u_last_renewal_date = None, u_next_renewal_date = None, u_annual_fee = None,
       u_currency = None, u_status = None, u_notes = None \<rparr>"

section \<open>Well-formed documents\<close>

text \<open>
  The shape of the documents that \<open>create_service\<close> inserts and that \<open>update_service\<close>
  and \<open>delete_service\<close> keep: every field of the model is there with a value of its
  type, a date being stored as a date-time at midnight.
\<close>

fun is_str :: "val \<Rightarrow> bool" where
  "is_str (VStr s) = True"
| "is_str v = False"

fun is_opt_str :: "val \<Rightarrow> bool" where
  "is_opt_str VNone = True"
| "is_opt_str (VStr s) = True"
| "is_opt_str v = False"

fun is_midnight :: "val \<Rightarrow> bool" where
  "is_midnight (VDateTime (DateTime d t)) = (t = Time 0 0 0 0)"
| "is_midnight v = False"

fun is_opt_midnight :: "val \<Rightarrow> bool" where
  "is_opt_midnight VNone = True"
| "is_opt_midnight v = is_midnight v"

fun is_float :: "val \<Rightarrow> bool" where
  "is_float (VFloat x) = True"
| "is_float v = False"

fun is_bool :: "val \<Rightarrow> bool" where
  "is_bool (VBool b) = True"
| "is_bool v = False"

fun is_datetime :: "val \<Rightarrow> bool" where
  "is_datetime (VDateTime dt) = True"
| "is_datetime v = False"

definition has :: "doc \<Rightarrow> string \<Rightarrow> (val \<Rightarrow> bool) \<Rightarrow> bool" where
  "has d k P = (case d k of None \<Rightarrow> False | Some v \<Rightarrow> P v)"

definition wf_doc :: "doc \<Rightarrow> bool" where
  "wf_doc d =
     (has d ''id'' is_str \<and> has d ''name'' is_str \<and> has d ''service_type'' is_str
      \<and> has d ''provider'' is_str \<and> has d ''creation_date'' is_midnight
      \<and> has d ''last_renewal_date'' is_opt_midnight \<and> has d ''next_renewal_date'' is_opt_midnight
      \<and> has d ''annual_fee'' is_float \<and> has d ''currency'' is_str \<and> has d ''status'' is_str
      \<and> has d ''notes'' is_opt_str \<and> has d ''is_deleted'' is_bool
      \<and> has d ''created_at'' is_datetime \<and> has d ''updated_at'' is_datetime)"

definition wf_db :: "doc list \<Rightarrow> bool" where
  "wf_db db = list_all wf_doc db"

section \<open>Example data\<close>

definition noon :: datetime where
  "noon = DateTime (Date 2024 1 1) (Time 12 0 0 0)"

definition example_create :: "string \<Rightarrow> string \<Rightarrow> ServiceCreate" where
  "example_create service_type_name status_name =
     \<lparr> c_name = ''Test'', c_service_type = service_type_name, c_provider = ''P'',
       c_creation_date = Date 2024 1 1, c_last_renewal_date = None,
       c_next_renewal_date = Some (Date 2025 1 1), c_annual_fee = 100,
       c_currency = ''USD'', c_status = status_name, c_notes = None \<rparr>"

text \<open>The store after one \<open>create_service\<close> on the empty store.\<close>

definition one_service_db :: "string \<Rightarrow> string \<Rightarrow> string \<Rightarrow> doc list" where
  "one_service_db service_id service_type_name status_name =
     snd (create_service service_id noon noon (example_create service_type_name status_name) [])"

text \<open>The store after creating one active service for each given type, the type name serving as identifier.\<close>

definition db_of_types :: "string list \<Rightarrow> doc list" where
  "db_of_types tys =
     foldl (\<lambda>db ty. snd (create_service ty noon noon (example_create ty ''active'') db)) [] tys"

definition eleven_types :: "string list" where
  "eleven_types = [''a'', ''b'', ''c'', ''d'', ''e'', ''f'', ''g'', ''h'', ''i'', ''j'', ''k'']"

definition example_runtime :: runtime where
  "example_runtime =
     \<lparr> uuid4 = ''u1'', utcnow = noon, utcnow_again = noon,
       to_excel = (\<lambda>rows. Inr ''xlsx''), build_pdf = (\<lambda>rows. Inr ''pdf'') \<rparr>"

definition fee_update :: ServiceUpdate where
  "fee_update = empty_update\<lparr>u_annual_fee := Some 150\<rparr>"

definition example_calls :: "(runtime \<times> string \<times> request) list" where
  "example_calls =
     [(example_runtime, ''authenticated'', DeleteService ''a''),
      (example_runtime, ''authenticated'', UpdateService ''a'' fee_update),
      (example_runtime, ''authenticated'', CreateService (example_create ''Hosting'' ''active''))]"

text \<open>The store after one service is created and then deleted.\<close>

definition deleted_db :: "doc list" where
  "deleted_db = snd (delete_service noon ''a'' (db_of_types [''a'']))"

text \<open>The store after two services are created and the first is deleted.\<close>

definition mixed_db :: "doc list" where
  "mixed_db = snd (delete_service noon ''a'' (db_of_types [''a'', ''b'']))"


section \<open>What the queries select\<close>

lemma matches_not_deleted:
  "matches not_deleted d = (d ''is_deleted'' = Some (VBool False))"
  by (simp add: matches_def not_deleted_def)

lemma matches_active:
  "matches active d = (d ''is_deleted'' = Some (VBool False) \<and> d ''status'' = Some (VStr ''active''))"
  by (simp add: matches_def active_def)

lemma matches_by_id:
  "matches (by_id service_id) d =
     (d ''id'' = Some (VStr service_id) \<and> d ''is_deleted'' = Some (VBool False))"
  by (simp add: matches_def by_id_def)

lemma filter_not_deleted:
  "filter (matches not_deleted) db = filter (\<lambda>d. d ''is_deleted'' = Some (VBool False)) db"
  by (rule filter_cong [OF refl]) (simp add: matches_not_deleted)

lemma filter_active:
  "filter (matches active) db =
     filter (\<lambda>d. d ''is_deleted'' = Some (VBool False) \<and> d ''status'' = Some (VStr ''active'')) db"
  by (rule filter_cong [OF refl]) (simp add: matches_active)

section \<open>Dashboard: counts and the sum of fees\<close>




section \<open>Login and the token check\<close>



section \<open>Dashboard: services by type\<close>

lemma bump_keys: "fst ` set (bump k gs) = insert k (fst ` set gs)"
  by (induction k gs rule: bump.induct) auto

lemma bump_distinct: "distinct (map fst gs) \<Longrightarrow> distinct (map fst (bump k gs))"
proof (induction k gs rule: bump.induct)
  case (1 k)
  then show ?case by simp
next
  case (2 k k' n gs)
  show ?case
  proof (cases "k = k'")
    case True
    with 2 show ?thesis by simp
  next
    case False
    with 2 have "distinct (map fst (bump k gs))" and "k' \<notin> fst ` set gs"
      by simp_all
    with False show ?thesis
      by (simp add: bump_keys)
  qed
qed

lemma bump_lookup:
  "map_of (bump k gs) t =
     (if t = k then Some (case map_of gs k of None \<Rightarrow> 1 | Some n \<Rightarrow> n + 1) else map_of gs t)"
  by (induction gs) auto

lemma group_count_snoc:
  "group_count k (ds @ [d]) = bump (field_or_null (d k)) (group_count k ds)"
  by (simp add: group_count_def)

lemma group_count_distinct: "distinct (map fst (group_count k ds))"
proof (induction ds rule: rev_induct)
  case Nil
  then show ?case by (simp add: group_count_def)
next
  case (snoc d ds)
  then show ?case by (simp add: group_count_snoc bump_distinct)
qed

lemma group_count_keys:
  "fst ` set (group_count k ds) = (\<lambda>d. field_or_null (d k)) ` set ds"
proof (induction ds rule: rev_induct)
  case Nil
  then show ?case by (simp add: group_count_def)
next
  case (snoc d ds)
  then show ?case by (simp add: group_count_snoc bump_keys)
qed

lemma group_count_lookup:
  "map_of (group_count k ds) t =
     (if t \<in> (\<lambda>d. field_or_null (d k)) ` set ds
      then Some (length (filter (\<lambda>d. field_or_null (d k) = t) ds)) else None)"
proof (induction ds rule: rev_induct)
  case Nil
  then show ?case by (simp add: group_count_def)
next
  case (snoc d ds)
  show ?case
  proof (cases "t = field_or_null (d k)")
    case False
    then show ?thesis
      using snoc by (auto simp: group_count_snoc bump_lookup)
  next
    case True
    show ?thesis
    proof (cases "t \<in> (\<lambda>d. field_or_null (d k)) ` set ds")
      case True
      with snoc \<open>t = field_or_null (d k)\<close> show ?thesis
        by (simp add: group_count_snoc bump_lookup)
    next
      case False
      then have "filter (\<lambda>d. field_or_null (d k) = t) ds = []"
        by (auto simp: filter_empty_conv)
      with False snoc \<open>t = field_or_null (d k)\<close> show ?thesis
        by (simp add: group_count_snoc bump_lookup)
    qed
  qed
qed

lemma group_count_length:
  "length (group_count k ds) = card ((\<lambda>d. field_or_null (d k)) ` set ds)"
proof -
  have "card (set (map fst (group_count k ds))) = length (map fst (group_count k ds))"
    by (rule distinct_card) (rule group_count_distinct)
  then have "length (group_count k ds) = card (fst ` set (group_count k ds))"
    by simp
  then show ?thesis by (simp only: group_count_keys)
qed

text \<open>
  Claim C1, as amended. \<open>services_by_type\<close> holds the first ten groups of the
  grouping of the documents with \<open>is_deleted = false\<close> and status \<open>active\<close> by
  their \<open>service_type\<close>: no type appears twice, the number of groups is the number
  of distinct types or ten, whichever is smaller, every group that is reported carries the
  number of such documents of its type, and when there are at most ten distinct types
  every one of them is reported.
\<close>

theorem services_by_type_capped:
  "services_by_type (get_dashboard_stats db) =
     take 10 (group_count ''service_type'' (filter (matches active) db))
   \<and> distinct (map fst (services_by_type (get_dashboard_stats db)))
   \<and> length (services_by_type (get_dashboard_stats db)) =
       min 10 (card ((\<lambda>d. field_or_null (d ''service_type''))
          ` {d \<in> set db. d ''is_deleted'' = Some (VBool False) \<and> d ''status'' = Some (VStr ''active'')}))
   \<and> (\<forall>(t, c) \<in> set (services_by_type (get_dashboard_stats db)).
         0 < c \<and>
         c = size (filter_mset (\<lambda>d. d ''is_deleted'' = Some (VBool False)
                \<and> d ''status'' = Some (VStr ''active'') \<and> field_or_null (d ''service_type'') = t) (mset db)))
   \<and> (card ((\<lambda>d. field_or_null (d ''service_type''))
          ` {d \<in> set db. d ''is_deleted'' = Some (VBool False) \<and> d ''status'' = Some (VStr ''active'')}) \<le> 10
        \<longrightarrow> fst ` set (services_by_type (get_dashboard_stats db)) =
            (\<lambda>d. field_or_null (d ''service_type''))
          ` {d \<in> set db. d ''is_deleted'' = Some (VBool False) \<and> d ''status'' = Some (VStr ''active'')})"
proof -
  let ?sel = "filter (matches active) db"
  let ?gs = "group_count ''service_type'' ?sel"
  let ?key = "\<lambda>d::doc. field_or_null (d ''service_type'')"
  let ?S = "{d \<in> set db. d ''is_deleted'' = Some (VBool False) \<and> d ''status'' = Some (VStr ''active'')}"
  have res: "services_by_type (get_dashboard_stats db) = take 10 ?gs"
    by (simp add: get_dashboard_stats_def Let_def to_list_def match_stage_def)
  have set_sel: "set ?sel = ?S"
    by (auto simp: matches_active)
  have dist: "distinct (map fst ?gs)"
    by (rule group_count_distinct)
  have len: "length ?gs = card (?key ` ?S)"
    by (simp only: group_count_length set_sel)
  have keys: "fst ` set ?gs = ?key ` ?S"
    by (simp only: group_count_keys set_sel)
  have c1: "distinct (map fst (take 10 ?gs))"
    using dist by (simp add: take_map [symmetric] distinct_take)
  have c2: "length (take 10 ?gs) = min 10 (card (?key ` ?S))"
    by (simp only: length_take len min.commute)
  have c3: "\<forall>(t, c) \<in> set (take 10 ?gs).
         0 < c \<and> c = size (filter_mset (\<lambda>d. d ''is_deleted'' = Some (VBool False)
                \<and> d ''status'' = Some (VStr ''active'') \<and> ?key d = t) (mset db))"
  proof (clarify)
    fix t c
    assume "(t, c) \<in> set (take 10 ?gs)"
    then have "(t, c) \<in> set ?gs" by (rule in_set_takeD)
    with dist have look: "map_of ?gs t = Some c" by simp
    then have tin: "t \<in> ?key ` set ?sel" and c: "c = length (filter (\<lambda>d. ?key d = t) ?sel)"
      by (auto simp: group_count_lookup split: if_splits)
    from tin have "filter (\<lambda>d. ?key d = t) ?sel \<noteq> []"
      by (auto simp: filter_empty_conv)
    then have pos: "0 < c" by (simp add: c)
    have "filter (\<lambda>d. ?key d = t) ?sel =
        filter (\<lambda>d. d ''is_deleted'' = Some (VBool False)
                \<and> d ''status'' = Some (VStr ''active'') \<and> ?key d = t) db"
      by (simp add: filter_active conj_commute conj_left_commute)
    then have "c = size (filter_mset (\<lambda>d. d ''is_deleted'' = Some (VBool False)
                \<and> d ''status'' = Some (VStr ''active'') \<and> ?key d = t) (mset db))"
      by (simp add: c flip: mset_filter)
    with pos show "0 < c \<and> c = size (filter_mset (\<lambda>d. d ''is_deleted'' = Some (VBool False)
                \<and> d ''status'' = Some (VStr ''active'') \<and> ?key d = t) (mset db))"
      by simp
  qed
  have c4: "card (?key ` ?S) \<le> 10 \<longrightarrow> fst ` set (take 10 ?gs) = ?key ` ?S"
    using len keys by simp
  show ?thesis
    unfolding res using c1 c2 c3 c4 by blast
qed

text \<open>
  Claim C1 as stated fails: after eleven active services of eleven different types are
  created, only ten groups are reported, so one group of active, non-deleted records is
  omitted.
\<close>

theorem services_by_type_omits_a_group:
  "length (filter (\<lambda>d. d ''is_deleted'' = Some (VBool False) \<and> d ''status'' = Some (VStr ''active''))
      (db_of_types eleven_types)) = 11
   \<and> distinct (map (\<lambda>d. d ''service_type'') (db_of_types eleven_types))
   \<and> length (services_by_type (get_dashboard_stats (db_of_types eleven_types))) = 10"
  by (simp add: db_of_types_def eleven_types_def create_service_def insert_one_def
      Service_of_create_def Service_dict_def dates_to_datetimes_def example_create_def
      get_dashboard_stats_def Let_def to_list_def match_stage_def group_count_def
      matches_active)

section \<open>Updating one document\<close>

lemma update_one_no_match:
  "\<not> (\<exists>d \<in> set db. matches q d) \<Longrightarrow> update_one q upd db = (0, db)"
  by (induction db) simp_all

lemma update_one_match:
  "\<exists>d \<in> set db. matches q d \<Longrightarrow>
   \<exists>i < length db. matches q (db ! i) \<and> (\<forall>j < i. \<not> matches q (db ! j))
      \<and> update_one q upd db = (1, db[i := set_fields upd (db ! i)])"
proof (induction db)
  case Nil
  then show ?case by simp
next
  case (Cons d ds)
  show ?case
  proof (cases "matches q d")
    case True
    then have "0 < length (d # ds) \<and> matches q ((d # ds) ! 0) \<and> (\<forall>j < 0. \<not> matches q ((d # ds) ! j))
      \<and> update_one q upd (d # ds) = (1, (d # ds)[0 := set_fields upd ((d # ds) ! 0)])"
      by simp
    then show ?thesis by blast
  next
    case False
    with Cons.prems have "\<exists>d \<in> set ds. matches q d" by simp
    from Cons.IH [OF this] obtain i where i: "i < length ds" "matches q (ds ! i)"
      "\<forall>j < i. \<not> matches q (ds ! j)" "update_one q upd ds = (1, ds[i := set_fields upd (ds ! i)])"
      by blast
    have "\<forall>j < Suc i. \<not> matches q ((d # ds) ! j)"
    proof (intro allI impI)
      fix j assume "j < Suc i"
      then show "\<not> matches q ((d # ds) ! j)"
        using False i(3) by (cases j) simp_all
    qed
    with i False have "Suc i < length (d # ds) \<and> matches q ((d # ds) ! Suc i)
      \<and> (\<forall>j < Suc i. \<not> matches q ((d # ds) ! j))
      \<and> update_one q upd (d # ds) = (1, (d # ds)[Suc i := set_fields upd ((d # ds) ! Suc i)])"
      by simp
    then show ?thesis by blast
  qed
qed

lemma set_fields_lookup:
  "set_fields upd d k = (case map_of upd k of None \<Rightarrow> d k | Some v \<Rightarrow> Some v)"
  by (simp add: set_fields_def map_add_def)

lemma map_of_filter_value:
  "distinct (map fst xs) \<Longrightarrow>
   map_of (filter (\<lambda>(k, v). P v) xs) k =
     (case map_of xs k of None \<Rightarrow> None | Some v \<Rightarrow> if P v then Some v else None)"
proof (induction xs)
  case Nil
  then show ?case by simp
next
  case (Cons x xs)
  obtain k' v' where x: "x = (k', v')" by (cases x)
  from Cons.prems have notin: "k' \<notin> fst ` set xs" and dist: "distinct (map fst xs)"
    by (simp_all add: x)
  from notin have none: "map_of xs k' = None"
    by (simp add: map_of_eq_None_iff)
  from notin have none': "map_of (filter (\<lambda>(k, v). P v) xs) k' = None"
    by (auto simp: map_of_eq_None_iff)
  show ?case
    using Cons.IH [OF dist] none none' by (simp add: x)
qed

lemma ServiceUpdate_dict_distinct: "distinct (map fst (ServiceUpdate_dict u))"
  by (simp add: ServiceUpdate_dict_def)

lemma ServiceUpdate_dict_no_updated_at: "map_of (ServiceUpdate_dict u) ''updated_at'' = None"
  by (simp add: ServiceUpdate_dict_def)

lemma update_data_lookup:
  "map_of (update_data_of now u) k =
     (if k = ''updated_at'' then Some (VDateTime now)
      else (case map_of (ServiceUpdate_dict u) k of
              None \<Rightarrow> None
            | Some v \<Rightarrow> if v = VNone then None else Some (date_to_datetime v)))"
proof -
  let ?given = "filter (\<lambda>(k, v). v \<noteq> VNone) (ServiceUpdate_dict u)"
  have given: "map_of ?given k =
      (case map_of (ServiceUpdate_dict u) k of None \<Rightarrow> None
       | Some v \<Rightarrow> if v \<noteq> VNone then Some v else None)"
    by (rule map_of_filter_value) (rule ServiceUpdate_dict_distinct)
  have "map_of (update_data_of now u) k =
      map_option date_to_datetime (map_of (?given @ [(''updated_at'', VDateTime now)]) k)"
    by (simp add: update_data_of_def dates_to_datetimes_def map_of_map map_add_def
        split: option.splits)
  also have "\<dots> = (if k = ''updated_at'' then Some (VDateTime now)
      else (case map_of (ServiceUpdate_dict u) k of
              None \<Rightarrow> None
            | Some v \<Rightarrow> if v = VNone then None else Some (date_to_datetime v)))"
    using ServiceUpdate_dict_no_updated_at [of u]
    by (simp add: given map_add_def split: option.splits)
  finally show ?thesis .
qed

lemma updated_doc_lookup:
  "set_fields (update_data_of now u) d k =
     (if k = ''updated_at'' then Some (VDateTime now)
      else (case map_of (ServiceUpdate_dict u) k of
              None \<Rightarrow> d k
            | Some v \<Rightarrow> if v = VNone then d k else Some (date_to_datetime v)))"
  by (simp add: set_fields_lookup update_data_lookup split: option.splits)

lemma opt_case: "opt f x = (case x of None \<Rightarrow> VNone | Some y \<Rightarrow> f y)"
  by (cases x) simp_all

lemma updated_doc_fields:
  shows "set_fields (update_data_of now u) d ''updated_at'' = Some (VDateTime now)"
    and "set_fields (update_data_of now u) d ''name'' = (case u_name u of None \<Rightarrow> d ''name'' | Some v \<Rightarrow> Some (VStr v))"
    and "set_fields (update_data_of now u) d ''service_type'' = (case u_service_type u of None \<Rightarrow> d ''service_type'' | Some v \<Rightarrow> Some (VStr v))"
    and "set_fields (update_data_of now u) d ''provider'' = (case u_provider u of None \<Rightarrow> d ''provider'' | Some v \<Rightarrow> Some (VStr v))"
    and "set_fields (update_data_of now u) d ''creation_date'' = (case u_creation_date u of None \<Rightarrow> d ''creation_date''
           | Some v \<Rightarrow> Some (VDateTime (DateTime v (Time 0 0 0 0))))"
    and "set_fields (update_data_of now u) d ''last_renewal_date'' = (case u_last_renewal_date u of None \<Rightarrow> d ''last_renewal_date''
           | Some v \<Rightarrow> Some (VDateTime (DateTime v (Time 0 0 0 0))))"
    and "set_fields (update_data_of now u) d ''next_renewal_date'' = (case u_next_renewal_date u of None \<Rightarrow> d ''next_renewal_date''
           | Some v \<Rightarrow> Some (VDateTime (DateTime v (Time 0 0 0 0))))"
    and "set_fields (update_data_of now u) d ''annual_fee'' = (case u_annual_fee u of None \<Rightarrow> d ''annual_fee'' | Some v \<Rightarrow> Some (VFloat v))"
    and "set_fields (update_data_of now u) d ''currency'' = (case u_currency u of None \<Rightarrow> d ''currency'' | Some v \<Rightarrow> Some (VStr v))"
    and "set_fields (update_data_of now u) d ''status'' = (case u_status u of None \<Rightarrow> d ''status'' | Some v \<Rightarrow> Some (VStr v))"
    and "set_fields (update_data_of now u) d ''notes'' = (case u_notes u of None \<Rightarrow> d ''notes'' | Some v \<Rightarrow> Some (VStr v))"
  by (simp_all add: updated_doc_lookup ServiceUpdate_dict_def opt_case combine_def min_time_def
      split: option.splits)

lemma updated_doc_frame:
  "k \<notin> {''name'', ''service_type'', ''provider'', ''creation_date'', ''last_renewal_date'',
         ''next_renewal_date'', ''annual_fee'', ''currency'', ''status'', ''notes'', ''updated_at''}
   \<Longrightarrow> set_fields (update_data_of now u) d k = d k"
  by (simp add: updated_doc_lookup ServiceUpdate_dict_def)

lemma updated_doc_empty:
  "set_fields (update_data_of now empty_update) d = d(''updated_at'' \<mapsto> VDateTime now)"
  by (rule ext) (simp add: updated_doc_lookup ServiceUpdate_dict_def empty_update_def)

lemma update_service_store:
  "snd (update_service now service_id u db) =
     snd (update_one (by_id service_id) (update_data_of now u) db)"
  by (simp add: update_service_def split: prod.splits option.splits)


text \<open>
  Claim C2. When \<open>update_service\<close> finds a non-deleted document with the identifier,
  the store afterwards differs from the store before in that one document only. There,
  \<open>updated_at\<close> is the time of the update; each of the ten fields of the request
  that is present and non-null holds the value of the request (a date as a date-time at
  midnight), each field that is absent or null keeps its stored value, and so does every
  other key. With the empty request the document changes in \<open>updated_at\<close> only.
\<close>

theorem update_service_applies_given_fields:
  assumes "\<exists>d \<in> set db. d ''id'' = Some (VStr service_id) \<and> d ''is_deleted'' = Some (VBool False)"
  shows "\<exists>i < length db. \<exists>d'.
      (db ! i) ''id'' = Some (VStr service_id) \<and> (db ! i) ''is_deleted'' = Some (VBool False)
      \<and> snd (update_service now service_id u db) = db[i := d']
      \<and> d' ''updated_at'' = Some (VDateTime now)
      \<and> d' ''name'' = (case u_name u of None \<Rightarrow> (db ! i) ''name'' | Some v \<Rightarrow> Some (VStr v))
      \<and> d' ''service_type'' = (case u_service_type u of None \<Rightarrow> (db ! i) ''service_type'' | Some v \<Rightarrow> Some (VStr v))
      \<and> d' ''provider'' = (case u_provider u of None \<Rightarrow> (db ! i) ''provider'' | Some v \<Rightarrow> Some (VStr v))
      \<and> d' ''creation_date'' = (case u_creation_date u of None \<Rightarrow> (db ! i) ''creation_date'' | Some v \<Rightarrow> Some (VDateTime (DateTime v (Time 0 0 0 0))))
      \<and> d' ''last_renewal_date'' = (case u_last_renewal_date u of None \<Rightarrow> (db ! i) ''last_renewal_date'' | Some v \<Rightarrow> Some (VDateTime (DateTime v (Time 0 0 0 0))))
      \<and> d' ''next_renewal_date'' = (case u_next_renewal_date u of None \<Rightarrow> (db ! i) ''next_renewal_date'' | Some v \<Rightarrow> Some (VDateTime (DateTime v (Time 0 0 0 0))))
      \<and> d' ''annual_fee'' = (case u_annual_fee u of None \<Rightarrow> (db ! i) ''annual_fee'' | Some v \<Rightarrow> Some (VFloat v))
      \<and> d' ''currency'' = (case u_currency u of None \<Rightarrow> (db ! i) ''currency'' | Some v \<Rightarrow> Some (VStr v))
      \<and> d' ''status'' = (case u_status u of None \<Rightarrow> (db ! i) ''status'' | Some v \<Rightarrow> Some (VStr v))
      \<and> d' ''notes'' = (case u_notes u of None \<Rightarrow> (db ! i) ''notes'' | Some v \<Rightarrow> Some (VStr v))
      \<and> (\<forall>k. k \<notin> {''name'', ''service_type'', ''provider'', ''creation_date'', ''last_renewal_date'',
              ''next_renewal_date'', ''annual_fee'', ''currency'', ''status'', ''notes'', ''updated_at''}
            \<longrightarrow> d' k = (db ! i) k)
      \<and> (u = empty_update \<longrightarrow> d' = (db ! i)(''updated_at'' \<mapsto> VDateTime now))"
proof -
  from assms have "\<exists>d \<in> set db. matches (by_id service_id) d"
    by (simp add: matches_by_id)
  from update_one_match [OF this, of "update_data_of now u"]
  obtain i where i: "i < length db" "matches (by_id service_id) (db ! i)"
    and upd: "update_one (by_id service_id) (update_data_of now u) db =
        (1, db[i := set_fields (update_data_of now u) (db ! i)])"
    by blast
  let ?d' = "set_fields (update_data_of now u) (db ! i)"
  have store: "snd (update_service now service_id u db) = db[i := ?d']"
    by (simp add: update_service_store upd)
  have frame: "\<forall>k. k \<notin> {''name'', ''service_type'', ''provider'', ''creation_date'', ''last_renewal_date'',
              ''next_renewal_date'', ''annual_fee'', ''currency'', ''status'', ''notes'', ''updated_at''}
            \<longrightarrow> ?d' k = (db ! i) k"
    by (intro allI impI) (rule updated_doc_frame)
  have empty: "u = empty_update \<longrightarrow> ?d' = (db ! i)(''updated_at'' \<mapsto> VDateTime now)"
    by (simp add: updated_doc_empty)
  from i(2) have found: "(db ! i) ''id'' = Some (VStr service_id)"
      "(db ! i) ''is_deleted'' = Some (VBool False)"
    by (simp_all add: matches_by_id)
  show ?thesis
    by (intro exI [of _ i] exI [of _ ?d'] conjI)
      (rule i(1) found store frame empty updated_doc_fields)+
qed

section \<open>Soft delete\<close>

lemma update_one_step:
  assumes "\<And>d. matches q d \<Longrightarrow> R d (set_fields upd d)" and "\<And>d. R d d"
  shows "length (snd (update_one q upd db)) = length db
    \<and> (\<forall>i < length db. R (db ! i) (snd (update_one q upd db) ! i))"
proof (induction db)
  case Nil
  then show ?case by simp
next
  case (Cons d ds)
  show ?case
  proof (cases "matches q d")
    case True
    have "\<forall>i < length (d # ds). R ((d # ds) ! i) ((set_fields upd d # ds) ! i)"
    proof (intro allI impI)
      fix i assume "i < length (d # ds)"
      then show "R ((d # ds) ! i) ((set_fields upd d # ds) ! i)"
        using assms(1) [OF True] assms(2) by (cases i) simp_all
    qed
    with True show ?thesis by simp
  next
    case False
    obtain n ds' where r: "update_one q upd ds = (n, ds')" by (cases "update_one q upd ds")
    with Cons have len: "length ds' = length ds" and all: "\<forall>i < length ds. R (ds ! i) (ds' ! i)"
      by simp_all
    have "\<forall>i < length (d # ds). R ((d # ds) ! i) ((d # ds') ! i)"
    proof (intro allI impI)
      fix i assume "i < length (d # ds)"
      then show "R ((d # ds) ! i) ((d # ds') ! i)"
        using all assms(2) by (cases i) simp_all
    qed
    with False r len show ?thesis by simp
  qed
qed

lemma route_step:
  "length db \<le> length (snd (route rt credentials req db))
   \<and> (\<forall>i < length db.
        (snd (route rt credentials req db) ! i) ''id'' = (db ! i) ''id''
        \<and> ((snd (route rt credentials req db) ! i) ''is_deleted'' = (db ! i) ''is_deleted''
           \<or> (db ! i) ''is_deleted'' = Some (VBool False)
              \<and> (snd (route rt credentials req db) ! i) ''is_deleted'' = Some (VBool True)))"
proof (cases "verify_token credentials")
  case (Inl e)
  then show ?thesis by (simp add: route_def)
next
  case (Inr ok)
  let ?R = "\<lambda>d d' :: doc. d' ''id'' = d ''id''
      \<and> (d' ''is_deleted'' = d ''is_deleted''
         \<or> d ''is_deleted'' = Some (VBool False) \<and> d' ''is_deleted'' = Some (VBool True))"
  have same: "length db \<le> length db \<and> (\<forall>i < length db. ?R (db ! i) (db ! i))"
    by simp
  show ?thesis
  proof (cases req)
    case (CreateService service_data)
    then show ?thesis
      using Inr by (simp add: route_def create_service_def insert_one_def Let_def nth_append)
  next
    case (UpdateService service_id service_data)
    have "length (snd (update_one (by_id service_id) (update_data_of (utcnow rt) service_data) db)) = length db
      \<and> (\<forall>i < length db. ?R (db ! i)
            (snd (update_one (by_id service_id) (update_data_of (utcnow rt) service_data) db) ! i))"
      by (rule update_one_step) (simp_all add: updated_doc_frame)
    moreover have "snd (route rt credentials req db) =
        snd (update_one (by_id service_id) (update_data_of (utcnow rt) service_data) db)"
      using Inr UpdateService
      by (simp add: route_def update_service_store case_prod_beta)
    ultimately show ?thesis by simp
  next
    case (DeleteService service_id)
    let ?upd = "[(''is_deleted'', VBool True), (''updated_at'', VDateTime (utcnow rt))]"
    have "length (snd (update_one (by_id service_id) ?upd db)) = length db
      \<and> (\<forall>i < length db. ?R (db ! i) (snd (update_one (by_id service_id) ?upd db) ! i))"
      by (rule update_one_step) (simp_all add: set_fields_lookup matches_by_id)
    moreover have "snd (route rt credentials req db) = snd (update_one (by_id service_id) ?upd db)"
      using Inr DeleteService
      by (simp add: route_def delete_service_def case_prod_beta)
    ultimately show ?thesis by simp
  qed (use Inr in \<open>simp_all add: route_def\<close>)
qed

text \<open>
  Claim C3. Over every sequence of requests to the protected routes, with any
  credentials, no document leaves the store and none changes its place or its identifier;
  the \<open>is_deleted\<close> flag of a document either stays as it was or has gone from false
  to true. \<open>delete_service\<close> on the identifier of a non-deleted document sets
  \<open>is_deleted\<close> to true and \<open>updated_at\<close> to the time of the call on that
  document, changes nothing else, and returns the confirmation message.
\<close>

theorem soft_delete_is_one_way:
  "length db \<le> length (run calls db)
   \<and> (\<forall>i < length db.
        (run calls db ! i) ''id'' = (db ! i) ''id''
        \<and> ((run calls db ! i) ''is_deleted'' = (db ! i) ''is_deleted''
           \<or> (db ! i) ''is_deleted'' = Some (VBool False)
              \<and> (run calls db ! i) ''is_deleted'' = Some (VBool True)))
   \<and> ((\<exists>d \<in> set db. d ''id'' = Some (VStr service_id) \<and> d ''is_deleted'' = Some (VBool False)) \<longrightarrow>
        (\<exists>i < length db. (db ! i) ''id'' = Some (VStr service_id)
            \<and> (db ! i) ''is_deleted'' = Some (VBool False)
            \<and> delete_service now service_id db =
                (Inr [(''message'', ''Service deleted successfully'')],
                 db[i := (db ! i)(''is_deleted'' \<mapsto> VBool True, ''updated_at'' \<mapsto> VDateTime now)])))"
proof -
  have seq: "length db \<le> length (run calls db)
   \<and> (\<forall>i < length db.
        (run calls db ! i) ''id'' = (db ! i) ''id''
        \<and> ((run calls db ! i) ''is_deleted'' = (db ! i) ''is_deleted''
           \<or> (db ! i) ''is_deleted'' = Some (VBool False)
              \<and> (run calls db ! i) ''is_deleted'' = Some (VBool True)))"
  proof (induction calls arbitrary: db)
    case Nil
    then show ?case by simp
  next
    case (Cons call calls)
    obtain rt credentials req where call: "call = (rt, credentials, req)"
      by (cases call)
    let ?db1 = "snd (route rt credentials req db)"
    have run: "run (call # calls) db = run calls ?db1"
      by (simp add: call)
    note step = route_step [of db rt credentials req]
    note rest = Cons.IH [of ?db1]
    from step rest have len: "length db \<le> length (run calls ?db1)"
      by linarith
    have "\<forall>i < length db.
        (run calls ?db1 ! i) ''id'' = (db ! i) ''id''
        \<and> ((run calls ?db1 ! i) ''is_deleted'' = (db ! i) ''is_deleted''
           \<or> (db ! i) ''is_deleted'' = Some (VBool False)
              \<and> (run calls ?db1 ! i) ''is_deleted'' = Some (VBool True))"
    proof (intro allI impI)
      fix i assume i: "i < length db"
      with step have i1: "i < length ?db1" by linarith
      from step i have s: "(?db1 ! i) ''id'' = (db ! i) ''id''"
        "(?db1 ! i) ''is_deleted'' = (db ! i) ''is_deleted''
           \<or> (db ! i) ''is_deleted'' = Some (VBool False) \<and> (?db1 ! i) ''is_deleted'' = Some (VBool True)"
        by blast+
      from rest i1 have r: "(run calls ?db1 ! i) ''id'' = (?db1 ! i) ''id''"
        "(run calls ?db1 ! i) ''is_deleted'' = (?db1 ! i) ''is_deleted''
           \<or> (?db1 ! i) ''is_deleted'' = Some (VBool False)
              \<and> (run calls ?db1 ! i) ''is_deleted'' = Some (VBool True)"
        by blast+
      from s r show "(run calls ?db1 ! i) ''id'' = (db ! i) ''id''
        \<and> ((run calls ?db1 ! i) ''is_deleted'' = (db ! i) ''is_deleted''
           \<or> (db ! i) ''is_deleted'' = Some (VBool False)
              \<and> (run calls ?db1 ! i) ''is_deleted'' = Some (VBool True))"
        by auto
    qed
    with len show ?case unfolding run by blast
  qed
  have del: "(\<exists>d \<in> set db. d ''id'' = Some (VStr service_id) \<and> d ''is_deleted'' = Some (VBool False)) \<longrightarrow>
        (\<exists>i < length db. (db ! i) ''id'' = Some (VStr service_id)
            \<and> (db ! i) ''is_deleted'' = Some (VBool False)
            \<and> delete_service now service_id db =
                (Inr [(''message'', ''Service deleted successfully'')],
                 db[i := (db ! i)(''is_deleted'' \<mapsto> VBool True, ''updated_at'' \<mapsto> VDateTime now)]))"
  proof
    assume "\<exists>d \<in> set db. d ''id'' = Some (VStr service_id) \<and> d ''is_deleted'' = Some (VBool False)"
    then have "\<exists>d \<in> set db. matches (by_id service_id) d"
      by (simp add: matches_by_id)
    from update_one_match [OF this, of "[(''is_deleted'', VBool True), (''updated_at'', VDateTime now)]"]
    obtain i where i: "i < length db" "matches (by_id service_id) (db ! i)"
      and upd: "update_one (by_id service_id) [(''is_deleted'', VBool True), (''updated_at'', VDateTime now)] db =
        (1, db[i := set_fields [(''is_deleted'', VBool True), (''updated_at'', VDateTime now)] (db ! i)])"
      by blast
    have "set_fields [(''is_deleted'', VBool True), (''updated_at'', VDateTime now)] (db ! i) =
        (db ! i)(''is_deleted'' \<mapsto> VBool True, ''updated_at'' \<mapsto> VDateTime now)"
      by (rule ext) (simp add: set_fields_lookup)
    with upd have "delete_service now service_id db =
                (Inr [(''message'', ''Service deleted successfully'')],
                 db[i := (db ! i)(''is_deleted'' \<mapsto> VBool True, ''updated_at'' \<mapsto> VDateTime now)])"
      by (simp add: delete_service_def)
    with i show "\<exists>i < length db. (db ! i) ''id'' = Some (VStr service_id)
            \<and> (db ! i) ''is_deleted'' = Some (VBool False)
            \<and> delete_service now service_id db =
                (Inr [(''message'', ''Service deleted successfully'')],
                 db[i := (db ! i)(''is_deleted'' \<mapsto> VBool True, ''updated_at'' \<mapsto> VDateTime now)])"
      by (auto simp: matches_by_id)
  qed
  from seq del show ?thesis by blast
qed

section \<open>The claims on example data\<close>

lemmas example_defs =
  db_of_types_def one_service_db_def create_service_def insert_one_def Service_of_create_def
  Service_dict_def dates_to_datetimes_def example_create_def

theorem services_by_type_capped_witness:
  "card ((\<lambda>d. field_or_null (d ''service_type''))
          ` {d \<in> set (db_of_types [''Domain'', ''Hosting'']).
               d ''is_deleted'' = Some (VBool False) \<and> d ''status'' = Some (VStr ''active'')}) \<le> 10
   \<and> fst ` set (services_by_type (get_dashboard_stats (db_of_types [''Domain'', ''Hosting'']))) =
       (\<lambda>d. field_or_null (d ''service_type''))
          ` {d \<in> set (db_of_types [''Domain'', ''Hosting'']).
               d ''is_deleted'' = Some (VBool False) \<and> d ''status'' = Some (VStr ''active'')}"
proof -
  let ?db = "db_of_types [''Domain'', ''Hosting'']"
  let ?S = "{d \<in> set ?db. d ''is_deleted'' = Some (VBool False) \<and> d ''status'' = Some (VStr ''active'')}"
  have "?S = set (filter (\<lambda>d. d ''is_deleted'' = Some (VBool False) \<and> d ''status'' = Some (VStr ''active'')) ?db)"
    by simp
  also have "\<dots> = set ?db"
    by (simp add: example_defs)
  finally have S: "?S = set ?db" .
  have "(\<lambda>d. field_or_null (d ''service_type'')) ` set ?db = {VStr ''Domain'', VStr ''Hosting''}"
    by (simp add: example_defs)
  then have h: "card ((\<lambda>d. field_or_null (d ''service_type'')) ` ?S) \<le> 10"
    by (simp add: S)
  from services_by_type_capped [of ?db] h show ?thesis
    by blast
qed

theorem update_service_applies_given_fields_witness:
  "(\<exists>d \<in> set (db_of_types [''a'']). d ''id'' = Some (VStr ''a'') \<and> d ''is_deleted'' = Some (VBool False))
   \<and> (snd (update_service noon ''a'' fee_update (db_of_types [''a''])) ! 0) ''annual_fee''
        = Some (VFloat 150)
   \<and> (snd (update_service noon ''a'' fee_update (db_of_types [''a''])) ! 0) ''name''
        = (db_of_types [''a''] ! 0) ''name''"
proof -
  let ?db = "db_of_types [''a'']"
  have h: "\<exists>d \<in> set ?db. d ''id'' = Some (VStr ''a'') \<and> d ''is_deleted'' = Some (VBool False)"
    by (simp add: example_defs)
  have len: "length ?db = 1"
    by (simp add: example_defs)
  from update_service_applies_given_fields [OF h, of noon fee_update]
  obtain i d' where i: "i < length ?db"
    and store: "snd (update_service noon ''a'' fee_update ?db) = ?db[i := d']"
    and fee: "d' ''annual_fee'' = (case u_annual_fee fee_update of None \<Rightarrow> (?db ! i) ''annual_fee''
        | Some v \<Rightarrow> Some (VFloat v))"
    and nm: "d' ''name'' = (case u_name fee_update of None \<Rightarrow> (?db ! i) ''name''
        | Some v \<Rightarrow> Some (VStr v))"
    by blast
  from i len have i0: "i = 0" by simp
  from fee have fee': "d' ''annual_fee'' = Some (VFloat 150)"
    by (simp add: fee_update_def empty_update_def)
  from nm have nm': "d' ''name'' = (?db ! 0) ''name''"
    by (simp add: fee_update_def empty_update_def i0)
  from store i0 len have "snd (update_service noon ''a'' fee_update ?db) ! 0 = d'"
    by simp
  with h fee' nm' show ?thesis by simp
qed

theorem soft_delete_is_one_way_witness:
  "0 < length (db_of_types [''a''])
   \<and> (db_of_types [''a''] ! 0) ''is_deleted'' = Some (VBool False)
   \<and> (run example_calls (db_of_types [''a'']) ! 0) ''is_deleted'' = Some (VBool True)
   \<and> (run example_calls (db_of_types [''a'']) ! 0) ''id'' = (db_of_types [''a''] ! 0) ''id''
   \<and> length (run example_calls (db_of_types [''a''])) = 2
   \<and> (\<exists>d \<in> set (db_of_types [''a'']). d ''id'' = Some (VStr ''a'') \<and> d ''is_deleted'' = Some (VBool False))
   \<and> (\<exists>i < length (db_of_types [''a'']).
         delete_service noon ''a'' (db_of_types [''a'']) =
                (Inr [(''message'', ''Service deleted successfully'')],
                 (db_of_types [''a''])[i := (db_of_types [''a''] ! i)
                     (''is_deleted'' \<mapsto> VBool True, ''updated_at'' \<mapsto> VDateTime noon)]))"
proof -
  let ?db = "db_of_types [''a'']"
  have len: "0 < length ?db"
    by (simp add: example_defs)
  have h: "\<exists>d \<in> set ?db. d ''id'' = Some (VStr ''a'') \<and> d ''is_deleted'' = Some (VBool False)"
    by (simp add: example_defs)
  have before: "(?db ! 0) ''is_deleted'' = Some (VBool False)"
    by (simp add: example_defs)
  have after: "(run example_calls ?db ! 0) ''is_deleted'' = Some (VBool True)"
    by code_simp
  have len2: "length (run example_calls ?db) = 2"
    by code_simp
  note t = soft_delete_is_one_way [of ?db example_calls "''a''" noon]
  from t len have ident: "(run example_calls ?db ! 0) ''id'' = (?db ! 0) ''id''"
    by blast
  from t h have del: "\<exists>i < length ?db.
         delete_service noon ''a'' ?db =
                (Inr [(''message'', ''Service deleted successfully'')],
                 ?db[i := (?db ! i)(''is_deleted'' \<mapsto> VBool True, ''updated_at'' \<mapsto> VDateTime noon)])"
    by blast
  from len before after ident len2 h del show ?thesis
    by blast
qed

section \<open>Reading stored documents\<close>

lemma has_str: "has d k is_str \<Longrightarrow> \<exists>s. d k = Some (VStr s)"
  by (cases "d k") (auto simp: has_def elim: is_str.elims)

lemma has_opt_str: "has d k is_opt_str \<Longrightarrow> d k = Some VNone \<or> (\<exists>s. d k = Some (VStr s))"
  by (cases "d k") (auto simp: has_def elim: is_opt_str.elims)

lemma has_midnight: "has d k is_midnight \<Longrightarrow> \<exists>x. d k = Some (VDateTime (DateTime x (Time 0 0 0 0)))"
  by (cases "d k") (auto simp: has_def elim: is_midnight.elims)

lemma has_opt_midnight:
  "has d k is_opt_midnight \<Longrightarrow>
     d k = Some VNone \<or> (\<exists>x. d k = Some (VDateTime (DateTime x (Time 0 0 0 0))))"
  by (cases "d k") (auto simp: has_def elim!: is_opt_midnight.elims is_midnight.elims)

lemma has_float: "has d k is_float \<Longrightarrow> \<exists>x. d k = Some (VFloat x)"
  by (cases "d k") (auto simp: has_def elim: is_float.elims)

lemma has_bool: "has d k is_bool \<Longrightarrow> \<exists>b. d k = Some (VBool b)"
  by (cases "d k") (auto simp: has_def elim: is_bool.elims)

lemma has_datetime: "has d k is_datetime \<Longrightarrow> \<exists>dt. d k = Some (VDateTime dt)"
  by (cases "d k") (auto simp: has_def elim: is_datetime.elims)

lemma get_str_wf: "has d k is_str \<Longrightarrow> \<exists>s. get_str d k = Some s"
  by (drule has_str) (auto simp: get_str_def)

lemma get_str_default_wf: "has d k is_str \<Longrightarrow> \<exists>s. get_str_default d k dflt = Some s"
  by (drule has_str) (auto simp: get_str_default_def)

lemma get_opt_str_wf: "has d k is_opt_str \<Longrightarrow> \<exists>s. get_opt_str d k = Some s"
  by (drule has_opt_str) (auto simp: get_opt_str_def)

lemma get_date_wf: "has d k is_midnight \<Longrightarrow> \<exists>x. get_date d k = Some x"
  by (drule has_midnight) (auto simp: get_date_def)

lemma get_opt_date_wf: "has d k is_opt_midnight \<Longrightarrow> \<exists>x. get_opt_date d k = Some x"
  by (drule has_opt_midnight) (auto simp: get_opt_date_def)

lemma get_float_wf: "has d k is_float \<Longrightarrow> \<exists>x. get_float d k = Some x"
  by (drule has_float) (auto simp: get_float_def)

lemma get_bool_default_wf: "has d k is_bool \<Longrightarrow> \<exists>b. get_bool_default d k dflt = Some b"
  by (drule has_bool) (auto simp: get_bool_default_def)

lemma get_datetime_wf: "has d k is_datetime \<Longrightarrow> \<exists>dt. get_datetime d k = Some dt"
  by (drule has_datetime) (auto simp: get_datetime_def)

lemma Service_validate_wf:
  assumes "wf_doc d"
  shows "\<exists>s. Service_validate d = Inr s"
proof -
  from assms obtain v1 v2 v3 v4 v5 v6 v7 where
    a: "get_str d ''id'' = Some v1" "get_str d ''name'' = Some v2"
      "get_str d ''service_type'' = Some v3" "get_str d ''provider'' = Some v4"
      "get_date d ''creation_date'' = Some v5" "get_opt_date d ''last_renewal_date'' = Some v6"
      "get_opt_date d ''next_renewal_date'' = Some v7"
    unfolding wf_doc_def
    using get_str_wf get_date_wf get_opt_date_wf by meson
  from assms obtain v8 v9 v10 v11 v12 v13 v14 where
    b: "get_float d ''annual_fee'' = Some v8" "get_str_default d ''currency'' ''TRY'' = Some v9"
      "get_str_default d ''status'' ''active'' = Some v10" "get_opt_str d ''notes'' = Some v11"
      "get_bool_default d ''is_deleted'' False = Some v12" "get_datetime d ''created_at'' = Some v13"
      "get_datetime d ''updated_at'' = Some v14"
    unfolding wf_doc_def
    using get_float_wf get_str_default_wf get_opt_str_wf get_bool_default_wf get_datetime_wf
    by meson
  show ?thesis
    by (simp add: Service_validate_def Service_fields_def a b)
qed

lemma Service_validate_id:
  assumes "Service_validate d = Inr r"
  shows "d ''id'' = Some (VStr (id_field r))"
proof -
  from assms have "Service_fields d = Some r"
    by (simp add: Service_validate_def split: option.splits)
  then have "get_str d ''id'' = Some (id_field r)"
    by (auto simp: Service_fields_def bind_eq_Some_conv)
  then show ?thesis
    by (auto simp: get_str_def split: option.splits val.splits)
qed

lemma Service_validate_is_deleted:
  assumes "Service_validate d = Inr r" and "d ''is_deleted'' = Some (VBool b)"
  shows "is_deleted r = b"
proof -
  from assms have "Service_fields d = Some r"
    by (simp add: Service_validate_def split: option.splits)
  then have "get_bool_default d ''is_deleted'' False = Some (is_deleted r)"
    by (auto simp: Service_fields_def bind_eq_Some_conv)
  with assms(2) show ?thesis
    by (simp add: get_bool_default_def)
qed

lemma stored_lookup:
  "map_of (dates_to_datetimes (Service_dict s)) k =
     map_option date_to_datetime (map_of (Service_dict s) k)"
  by (simp add: dates_to_datetimes_def map_of_map)

lemma Service_validate_stored:
  "Service_validate (map_of (dates_to_datetimes (Service_dict s))) = Inr s"
proof -
  let ?d = "map_of (dates_to_datetimes (Service_dict s))"
  have g: "get_str ?d ''id'' = Some (id_field s)" "get_str ?d ''name'' = Some (name s)"
    "get_str ?d ''service_type'' = Some (service_type s)" "get_str ?d ''provider'' = Some (provider s)"
    "get_date ?d ''creation_date'' = Some (creation_date s)"
    "get_opt_date ?d ''last_renewal_date'' = Some (last_renewal_date s)"
    "get_opt_date ?d ''next_renewal_date'' = Some (next_renewal_date s)"
    "get_float ?d ''annual_fee'' = Some (annual_fee s)"
    "get_str_default ?d ''currency'' ''TRY'' = Some (currency s)"
    "get_str_default ?d ''status'' ''active'' = Some (status s)"
    "get_opt_str ?d ''notes'' = Some (notes_field s)"
    "get_bool_default ?d ''is_deleted'' False = Some (is_deleted s)"
    "get_datetime ?d ''created_at'' = Some (created_at s)"
    "get_datetime ?d ''updated_at'' = Some (updated_at s)"
    by (simp_all add: dates_to_datetimes_def Service_dict_def get_str_def get_date_def get_opt_date_def
        get_float_def get_str_default_def get_opt_str_def get_bool_default_def get_datetime_def
        opt_case combine_def split: option.splits)
  show ?thesis
    by (simp add: Service_validate_def Service_fields_def g)
qed

lemma wf_doc_stored: "wf_doc (map_of (dates_to_datetimes (Service_dict s)))"
  by (simp add: wf_doc_def has_def dates_to_datetimes_def Service_dict_def opt_case combine_def
      min_time_def split: option.splits)

section \<open>Well-formed stores stay well-formed\<close>

lemma has_updated:
  "has (set_fields (update_data_of now u) d) k P =
     (if k = ''updated_at'' then P (VDateTime now)
      else (case map_of (ServiceUpdate_dict u) k of
              None \<Rightarrow> has d k P
            | Some v \<Rightarrow> if v = VNone then has d k P else P (date_to_datetime v)))"
  by (simp add: has_def updated_doc_lookup split: option.splits)

lemma wf_doc_updated:
  "wf_doc d \<Longrightarrow> wf_doc (set_fields (update_data_of now u) d)"
  unfolding wf_doc_def
  by (elim conjE, intro conjI;
      simp add: has_updated ServiceUpdate_dict_def opt_case combine_def min_time_def
        split: option.splits)

lemma wf_doc_deleted:
  "wf_doc d \<Longrightarrow>
   wf_doc (set_fields [(''is_deleted'', VBool True), (''updated_at'', VDateTime now)] d)"
  by (simp add: wf_doc_def has_def set_fields_lookup)

lemma wf_db_update_one:
  assumes "\<And>d. wf_doc d \<Longrightarrow> wf_doc (set_fields upd d)" and "wf_db db"
  shows "wf_db (snd (update_one q upd db))"
proof -
  have "length (snd (update_one q upd db)) = length db
    \<and> (\<forall>i < length db. (\<lambda>d d'. wf_doc d \<longrightarrow> wf_doc d') (db ! i) (snd (update_one q upd db) ! i))"
    by (rule update_one_step) (simp_all add: assms(1))
  with assms(2) show ?thesis
    by (simp add: wf_db_def list_all_length)
qed

lemma wf_db_route: "wf_db db \<Longrightarrow> wf_db (snd (route rt credentials req db))"
proof (cases "verify_token credentials")
  case (Inl e)
  assume "wf_db db"
  with Inl show ?thesis by (simp add: route_def)
next
  case (Inr ok)
  assume wf: "wf_db db"
  show ?thesis
  proof (cases req)
    case (CreateService service_data)
    with Inr wf show ?thesis
      by (simp add: route_def create_service_def insert_one_def Let_def wf_db_def wf_doc_stored)
  next
    case (UpdateService service_id service_data)
    have "wf_db (snd (update_one (by_id service_id) (update_data_of (utcnow rt) service_data) db))"
      by (rule wf_db_update_one) (simp_all add: wf wf_doc_updated)
    with Inr UpdateService show ?thesis
      by (simp add: route_def update_service_store case_prod_beta)
  next
    case (DeleteService service_id)
    have "wf_db (snd (update_one (by_id service_id)
        [(''is_deleted'', VBool True), (''updated_at'', VDateTime (utcnow rt))] db))"
      by (rule wf_db_update_one) (simp_all add: wf wf_doc_deleted)
    with Inr DeleteService show ?thesis
      by (simp add: route_def delete_service_def case_prod_beta)
  qed (use Inr wf in \<open>simp_all add: route_def\<close>)
qed

lemma wf_db_run: "wf_db db \<Longrightarrow> wf_db (run calls db)"
proof (induction calls arbitrary: db)
  case Nil
  then show ?case by simp
next
  case (Cons call calls)
  obtain rt credentials req where "call = (rt, credentials, req)"
    by (cases call)
  with Cons show ?case
    by (simp add: wf_db_route)
qed

lemma wf_db_empty: "wf_db []"
  by (simp add: wf_db_def)

section \<open>Not found\<close>

lemma find_one_None: "find_one q db = None \<longleftrightarrow> \<not> (\<exists>d \<in> set db. matches q d)"
  by (auto simp: find_one_def find_None_iff)

lemma find_one_Some: "find_one q db = Some d \<Longrightarrow> d \<in> set db \<and> matches q d"
  by (auto simp: find_one_def find_Some_iff)

lemma not_found_without_live_record:
  assumes "\<not> (\<exists>d \<in> set db. d ''id'' = Some (VStr service_id) \<and> d ''is_deleted'' = Some (VBool False))"
  shows "get_service service_id db = Inl (HTTPException 404 ''Service not found'')
    \<and> update_service now service_id u db = (Inl (HTTPException 404 ''Service not found''), db)
    \<and> delete_service now service_id db = (Inl (HTTPException 404 ''Service not found''), db)"
proof -
  from assms have none: "\<not> (\<exists>d \<in> set db. matches (by_id service_id) d)"
    by (simp add: matches_by_id)
  then have "find_one (by_id service_id) db = None"
    by (simp add: find_one_None)
  then have g: "get_service service_id db = Inl (HTTPException 404 ''Service not found'')"
    by (simp add: get_service_def not_found_def)
  have u: "update_service now service_id u db = (Inl (HTTPException 404 ''Service not found''), db)"
    by (simp add: update_service_def update_one_no_match [OF none] not_found_def)
  have d: "delete_service now service_id db = (Inl (HTTPException 404 ''Service not found''), db)"
    by (simp add: delete_service_def update_one_no_match [OF none] not_found_def)
  from g u d show ?thesis by simp
qed

lemma found_with_live_record:
  assumes live: "\<exists>d \<in> set db. d ''id'' = Some (VStr service_id) \<and> d ''is_deleted'' = Some (VBool False)"
  shows "(\<exists>m db'. delete_service now service_id db = (Inr m, db'))
    \<and> (wf_db db \<longrightarrow> (\<exists>s. get_service service_id db = Inr s)
          \<and> (\<exists>s db'. update_service now service_id u db = (Inr s, db')))"
proof -
  from live have some: "\<exists>d \<in> set db. matches (by_id service_id) d"
    by (simp add: matches_by_id)
  from update_one_match [OF some, of "[(''is_deleted'', VBool True), (''updated_at'', VDateTime now)]"]
  have del: "\<exists>m db'. delete_service now service_id db = (Inr m, db')"
    by (auto simp: delete_service_def)
  have rest: "(\<exists>s. get_service service_id db = Inr s)
          \<and> (\<exists>s db'. update_service now service_id u db = (Inr s, db'))" if wf: "wf_db db"
  proof -
    from some obtain d where d: "find_one (by_id service_id) db = Some d"
      using find_one_None [of "by_id service_id" db] by auto
    then have "d \<in> set db" by (simp add: find_one_Some)
    with wf have "wf_doc d" by (simp add: wf_db_def list_all_iff)
    then obtain s where "Service_validate d = Inr s"
      using Service_validate_wf by blast
    with d have get: "\<exists>s. get_service service_id db = Inr s"
      by (simp add: get_service_def)
    from update_one_match [OF some, of "update_data_of now u"]
    obtain i where i: "i < length db" "matches (by_id service_id) (db ! i)"
      and upd: "update_one (by_id service_id) (update_data_of now u) db =
        (1, db[i := set_fields (update_data_of now u) (db ! i)])"
      by blast
    let ?db' = "db[i := set_fields (update_data_of now u) (db ! i)]"
    have "wf_db (snd (update_one (by_id service_id) (update_data_of now u) db))"
      by (rule wf_db_update_one) (simp_all add: wf wf_doc_updated)
    then have wf': "wf_db ?db'" by (simp add: upd)
    from i have "(?db' ! i) ''id'' = Some (VStr service_id)"
      by (simp add: updated_doc_frame matches_by_id)
    moreover from i have "?db' ! i \<in> set ?db'"
      by (metis length_list_update nth_mem)
    ultimately have "\<exists>d \<in> set ?db'. matches [(''id'', VStr service_id)] d"
      by (auto simp: matches_def)
    then obtain d2 where d2: "find_one [(''id'', VStr service_id)] ?db' = Some d2"
      using find_one_None [of "[(''id'', VStr service_id)]" ?db'] by auto
    then have "d2 \<in> set ?db'" by (simp add: find_one_Some)
    with wf' have "wf_doc d2" by (simp add: wf_db_def list_all_iff)
    then obtain s2 where "Service_validate d2 = Inr s2"
      using Service_validate_wf by blast
    with d2 upd have "update_service now service_id u db = (Inr s2, ?db')"
      by (simp add: update_service_def)
    with get show ?thesis by blast
  qed
  from del rest show ?thesis by blast
qed

text \<open>
  Claim C4. When no stored document carries the identifier with \<open>is_deleted = false\<close>,
  \<open>get_service\<close>, \<open>update_service\<close> and \<open>delete_service\<close> each fail with status
  404 and the store is as before. That is so when the identifier is absent from the store,
  and, identifiers being unique, when it is the identifier of a document with
  \<open>is_deleted = true\<close>. Conversely, on the identifier of a non-deleted document
  \<open>delete_service\<close> succeeds, and so do \<open>get_service\<close> and \<open>update_service\<close>
  on a store of documents that the handlers wrote.
\<close>

theorem not_found_iff_no_live_record:
  "(\<not> (\<exists>d \<in> set db. d ''id'' = Some (VStr service_id) \<and> d ''is_deleted'' = Some (VBool False)) \<longrightarrow>
       get_service service_id db = Inl (HTTPException 404 ''Service not found'')
       \<and> update_service now service_id u db = (Inl (HTTPException 404 ''Service not found''), db)
       \<and> delete_service now service_id db = (Inl (HTTPException 404 ''Service not found''), db))
   \<and> ((\<forall>d \<in> set db. d ''id'' \<noteq> Some (VStr service_id)) \<longrightarrow>
       get_service service_id db = Inl (HTTPException 404 ''Service not found'')
       \<and> update_service now service_id u db = (Inl (HTTPException 404 ''Service not found''), db)
       \<and> delete_service now service_id db = (Inl (HTTPException 404 ''Service not found''), db))
   \<and> (distinct (map (\<lambda>d. d ''id'') db)
        \<and> (\<exists>d \<in> set db. d ''id'' = Some (VStr service_id) \<and> d ''is_deleted'' = Some (VBool True)) \<longrightarrow>
       get_service service_id db = Inl (HTTPException 404 ''Service not found'')
       \<and> update_service now service_id u db = (Inl (HTTPException 404 ''Service not found''), db)
       \<and> delete_service now service_id db = (Inl (HTTPException 404 ''Service not found''), db))
   \<and> ((\<exists>d \<in> set db. d ''id'' = Some (VStr service_id) \<and> d ''is_deleted'' = Some (VBool False)) \<longrightarrow>
       (\<exists>m db'. delete_service now service_id db = (Inr m, db'))
       \<and> (wf_db db \<longrightarrow> (\<exists>s. get_service service_id db = Inr s)
             \<and> (\<exists>s db'. update_service now service_id u db = (Inr s, db'))))"
proof -
  let ?live = "\<exists>d \<in> set db. d ''id'' = Some (VStr service_id) \<and> d ''is_deleted'' = Some (VBool False)"
  have absent: "\<not> ?live" if "\<forall>d \<in> set db. d ''id'' \<noteq> Some (VStr service_id)"
    using that by blast
  have deleted: "\<not> ?live"
    if dist: "distinct (map (\<lambda>d. d ''id'') db)"
      and del: "\<exists>d \<in> set db. d ''id'' = Some (VStr service_id) \<and> d ''is_deleted'' = Some (VBool True)"
  proof
    assume ?live
    then obtain d1 where d1: "d1 \<in> set db" "d1 ''id'' = Some (VStr service_id)"
      "d1 ''is_deleted'' = Some (VBool False)" by blast
    from del obtain d2 where d2: "d2 \<in> set db" "d2 ''id'' = Some (VStr service_id)"
      "d2 ''is_deleted'' = Some (VBool True)" by blast
    from dist have inj: "inj_on (\<lambda>d. d ''id'') (set db)"
      by (simp add: distinct_map)
    have "d1 = d2"
      by (rule inj_onD [OF inj _ d1(1) d2(1)]) (simp add: d1(2) d2(2))
    with d1(3) d2(3) show False by simp
  qed
  show ?thesis
    using not_found_without_live_record [of db service_id now u]
      found_with_live_record [of db service_id now u] absent deleted
    by blast
qed

section \<open>Not found, on example data\<close>

theorem not_found_iff_no_live_record_witness:
  "\<not> (\<exists>d \<in> set deleted_db. d ''id'' = Some (VStr ''a'') \<and> d ''is_deleted'' = Some (VBool False))
   \<and> distinct (map (\<lambda>d. d ''id'') deleted_db)
   \<and> (\<exists>d \<in> set deleted_db. d ''id'' = Some (VStr ''a'') \<and> d ''is_deleted'' = Some (VBool True))
   \<and> get_service ''a'' deleted_db = Inl (HTTPException 404 ''Service not found'')
   \<and> update_service noon ''a'' fee_update deleted_db
        = (Inl (HTTPException 404 ''Service not found''), deleted_db)
   \<and> delete_service noon ''a'' deleted_db = (Inl (HTTPException 404 ''Service not found''), deleted_db)
   \<and> (\<exists>d \<in> set (db_of_types [''a'']). d ''id'' = Some (VStr ''a'') \<and> d ''is_deleted'' = Some (VBool False))
   \<and> wf_db (db_of_types [''a''])
   \<and> (\<exists>m db'. delete_service noon ''a'' (db_of_types [''a'']) = (Inr m, db'))
   \<and> (\<exists>s. get_service ''a'' (db_of_types [''a'']) = Inr s)
   \<and> (\<exists>s db'. update_service noon ''a'' fee_update (db_of_types [''a'']) = (Inr s, db'))"
proof -
  have h1: "\<not> (\<exists>d \<in> set deleted_db. d ''id'' = Some (VStr ''a'') \<and> d ''is_deleted'' = Some (VBool False))"
    by code_simp
  have h2: "distinct (map (\<lambda>d. d ''id'') deleted_db)"
    by code_simp
  have h3: "\<exists>d \<in> set deleted_db. d ''id'' = Some (VStr ''a'') \<and> d ''is_deleted'' = Some (VBool True)"
    by code_simp
  have h4: "\<exists>d \<in> set (db_of_types [''a'']). d ''id'' = Some (VStr ''a'') \<and> d ''is_deleted'' = Some (VBool False)"
    by code_simp
  have h5: "wf_db (db_of_types [''a''])"
    by code_simp
  note gone = not_found_iff_no_live_record [of deleted_db "''a''" noon fee_update]
  note live = not_found_iff_no_live_record [of "db_of_types [''a'']" "''a''" noon fee_update]
  from gone h1 have nf: "get_service ''a'' deleted_db = Inl (HTTPException 404 ''Service not found'')
     \<and> update_service noon ''a'' fee_update deleted_db
        = (Inl (HTTPException 404 ''Service not found''), deleted_db)
     \<and> delete_service noon ''a'' deleted_db = (Inl (HTTPException 404 ''Service not found''), deleted_db)"
    by blast
  from live h4 h5 have ok: "(\<exists>m db'. delete_service noon ''a'' (db_of_types [''a'']) = (Inr m, db'))
   \<and> (\<exists>s. get_service ''a'' (db_of_types [''a'']) = Inr s)
   \<and> (\<exists>s db'. update_service noon ''a'' fee_update (db_of_types [''a'']) = (Inr s, db'))"
    by blast
  from h1 h2 h3 h4 h5 nf ok show ?thesis by blast
qed

section \<open>Listing\<close>

lemma map_result_Inr:
  "map_result f xs = Inr ys \<Longrightarrow> list_all2 (\<lambda>x y. f x = Inr y) xs ys"
proof (induction xs arbitrary: ys)
  case Nil
  then show ?case by simp
next
  case (Cons x xs)
  then show ?case
    by (auto split: sum.splits)
qed

lemma map_result_total:
  "\<forall>x \<in> set xs. \<exists>y. f x = Inr y \<Longrightarrow> \<exists>ys. map_result f xs = Inr ys"
proof (induction xs)
  case Nil
  then show ?case by simp
next
  case (Cons x xs)
  then obtain y ys where "f x = Inr y" "map_result f xs = Inr ys"
    by auto
  then show ?case by simp
qed

lemma get_services_eq:
  "get_services db =
     map_result Service_validate (take 1000 (filter (\<lambda>d. d ''is_deleted'' = Some (VBool False)) db))"
  by (simp add: get_services_def to_list_def find_docs_def filter_not_deleted)

text \<open>
  Claim C8. \<open>list_services\<close> validates the first 1000 documents with
  \<open>is_deleted = false\<close>, in the order of the store: on a store of documents that the
  handlers wrote it succeeds, and whenever it succeeds the result holds one record for each
  of these documents, as many as there are non-deleted documents up to 1000, none of them
  deleted, and no document with \<open>is_deleted = true\<close> is among them, though it is in the
  store.
\<close>

theorem list_services_returns_non_deleted:
  "(wf_db db \<longrightarrow> (\<exists>rs. get_services db = Inr rs))
   \<and> (\<forall>rs. get_services db = Inr rs \<longrightarrow>
        list_all2 (\<lambda>d r. Service_validate d = Inr r)
          (take 1000 (filter (\<lambda>d. d ''is_deleted'' = Some (VBool False)) db)) rs
        \<and> length rs = min 1000 (length (filter (\<lambda>d. d ''is_deleted'' = Some (VBool False)) db))
        \<and> (\<forall>r \<in> set rs. \<not> is_deleted r)
        \<and> (\<forall>d \<in> set db. d ''is_deleted'' = Some (VBool True) \<longrightarrow> Service_validate d \<notin> Inr ` set rs))"
proof -
  let ?live = "filter (\<lambda>d. d ''is_deleted'' = Some (VBool False)) db"
  have total: "\<exists>rs. get_services db = Inr rs" if wf: "wf_db db"
  proof -
    have "\<forall>d \<in> set (take 1000 ?live). \<exists>r. Service_validate d = Inr r"
    proof
      fix d assume "d \<in> set (take 1000 ?live)"
      then have "d \<in> set db"
        by (auto dest: in_set_takeD)
      with wf have "wf_doc d" by (simp add: wf_db_def list_all_iff)
      then show "\<exists>r. Service_validate d = Inr r" by (rule Service_validate_wf)
    qed
    then show ?thesis
      unfolding get_services_eq by (rule map_result_total)
  qed
  have part: "list_all2 (\<lambda>d r. Service_validate d = Inr r) (take 1000 ?live) rs
        \<and> length rs = min 1000 (length ?live)
        \<and> (\<forall>r \<in> set rs. \<not> is_deleted r)
        \<and> (\<forall>d \<in> set db. d ''is_deleted'' = Some (VBool True) \<longrightarrow> Service_validate d \<notin> Inr ` set rs)"
    if rs: "get_services db = Inr rs" for rs
  proof -
    from rs have all2: "list_all2 (\<lambda>d r. Service_validate d = Inr r) (take 1000 ?live) rs"
      unfolding get_services_eq by (rule map_result_Inr)
    then have "length (take 1000 ?live) = length rs"
      by (rule list_all2_lengthD)
    then have "length rs = length (take 1000 ?live)"
      by (rule sym)
    then have len: "length rs = min 1000 (length ?live)"
      by (simp add: min.commute)
    have live: "\<not> is_deleted r" if "r \<in> set rs" for r
    proof -
      from that obtain i where i: "i < length rs" "rs ! i = r"
        by (auto simp: in_set_conv_nth)
      from all2 i(1) have v: "Service_validate (take 1000 ?live ! i) = Inr (rs ! i)"
        by (rule list_all2_nthD2)
      from all2 have "length (take 1000 ?live) = length rs"
        by (rule list_all2_lengthD)
      with i(1) have "take 1000 ?live ! i \<in> set (take 1000 ?live)"
        by (metis nth_mem)
      with v i(2) obtain d where "d \<in> set (take 1000 ?live)" "Service_validate d = Inr r"
        by blast
      moreover from this(1) have "d ''is_deleted'' = Some (VBool False)"
        by (auto dest: in_set_takeD)
      ultimately show ?thesis
        using Service_validate_is_deleted [of d r False] by simp
    qed
    have gone: "Service_validate d \<notin> Inr ` set rs" if "d ''is_deleted'' = Some (VBool True)" for d
    proof
      assume "Service_validate d \<in> Inr ` set rs"
      then obtain r where r: "r \<in> set rs" "Service_validate d = Inr r" by auto
      from r(2) that have "is_deleted r"
        using Service_validate_is_deleted [of d r True] by simp
      with live [OF r(1)] show False by simp
    qed
    from all2 len live gone show ?thesis by blast
  qed
  from total part show ?thesis by blast
qed

section \<open>Listing, on example data\<close>

theorem list_services_returns_non_deleted_witness:
  "wf_db mixed_db
   \<and> length mixed_db = 2
   \<and> length (filter (\<lambda>d. d ''is_deleted'' = Some (VBool False)) mixed_db) = 1
   \<and> (\<exists>rs. get_services mixed_db = Inr rs \<and> length rs = 1 \<and> \<not> (\<exists>r \<in> set rs. is_deleted r))"
proof -
  have wf: "wf_db mixed_db"
    by code_simp
  have len: "length mixed_db = 2"
    by code_simp
  have live: "length (filter (\<lambda>d. d ''is_deleted'' = Some (VBool False)) mixed_db) = 1"
    by code_simp
  note t = list_services_returns_non_deleted [of mixed_db]
  from t wf obtain rs where rs: "get_services mixed_db = Inr rs"
    by blast
  with t have "length rs = min 1000 (length (filter (\<lambda>d. d ''is_deleted'' = Some (VBool False)) mixed_db))"
    and "\<forall>r \<in> set rs. \<not> is_deleted r"
    by blast+
  with live rs have "\<exists>rs. get_services mixed_db = Inr rs \<and> length rs = 1 \<and> \<not> (\<exists>r \<in> set rs. is_deleted r)"
    by auto
  with wf len live show ?thesis by blast
qed

section \<open>Dates, stored and read back\<close>

lemma list_all2_left:
  "list_all2 P xs ys \<Longrightarrow> x \<in> set xs \<Longrightarrow> \<exists>y \<in> set ys. P x y"
  by (induction rule: list_all2_induct) auto

lemma list_all2_right:
  "list_all2 P xs ys \<Longrightarrow> y \<in> set ys \<Longrightarrow> \<exists>x \<in> set xs. P x y"
  by (induction rule: list_all2_induct) auto

lemma find_one_append_fresh:
  "\<not> (\<exists>d \<in> set db. matches q d) \<Longrightarrow> matches q x \<Longrightarrow> find_one q (db @ [x]) = Some x"
  by (induction db) (simp_all add: find_one_def)

lemma get_services_total:
  assumes wf: "wf_db db"
  shows "\<exists>rs. get_services db = Inr rs"
proof -
  have "\<forall>d \<in> set (take 1000 (filter (\<lambda>d. d ''is_deleted'' = Some (VBool False)) db)).
      \<exists>r. Service_validate d = Inr r"
  proof
    fix d assume "d \<in> set (take 1000 (filter (\<lambda>d. d ''is_deleted'' = Some (VBool False)) db))"
    then have "d \<in> set db"
      by (auto dest: in_set_takeD)
    with wf have "wf_doc d" by (simp add: wf_db_def list_all_iff)
    then show "\<exists>r. Service_validate d = Inr r" by (rule Service_validate_wf)
  qed
  then show ?thesis
    unfolding get_services_eq by (rule map_result_total)
qed

lemma stored_dates:
  fixes c :: ServiceCreate
  shows "map_of (dates_to_datetimes (Service_dict (Service_of_create new_id t1 t2 c))) ''creation_date''
      = Some (VDateTime (DateTime (c_creation_date c) (Time 0 0 0 0)))"
    and "map_of (dates_to_datetimes (Service_dict (Service_of_create new_id t1 t2 c))) ''last_renewal_date''
      = Some (case c_last_renewal_date c of None \<Rightarrow> VNone
              | Some x \<Rightarrow> VDateTime (DateTime x (Time 0 0 0 0)))"
    and "map_of (dates_to_datetimes (Service_dict (Service_of_create new_id t1 t2 c))) ''next_renewal_date''
      = Some (case c_next_renewal_date c of None \<Rightarrow> VNone
              | Some x \<Rightarrow> VDateTime (DateTime x (Time 0 0 0 0)))"
    and "map_of (dates_to_datetimes (Service_dict (Service_of_create new_id t1 t2 c))) ''id''
      = Some (VStr new_id)"
    and "map_of (dates_to_datetimes (Service_dict (Service_of_create new_id t1 t2 c))) ''is_deleted''
      = Some (VBool False)"
  by (simp_all add: dates_to_datetimes_def Service_dict_def Service_of_create_def opt_case
      combine_def min_time_def split: option.splits)

text \<open>
  Claim C7. \<open>create_service\<close> with an identifier that no non-deleted document
  carries appends one document, in which each date of the request is a date-time at
  midnight of that date (a missing optional date is the null value). \<open>get_service\<close>
  on the new identifier then succeeds with the three dates of the request; every record
  with that identifier in a result of \<open>list_services\<close> has the three dates of the
  request; and on a store of documents that the handlers wrote, holding fewer than 1000
  non-deleted documents, \<open>list_services\<close> succeeds and lists the new record.
\<close>

theorem created_dates_round_trip:
  assumes fresh: "\<not> (\<exists>d \<in> set db. d ''id'' = Some (VStr new_id) \<and> d ''is_deleted'' = Some (VBool False))"
  shows "\<exists>stored.
      snd (create_service new_id t1 t2 c db) = db @ [stored]
      \<and> stored ''creation_date'' = Some (VDateTime (DateTime (c_creation_date c) (Time 0 0 0 0)))
      \<and> stored ''last_renewal_date'' =
          Some (case c_last_renewal_date c of None \<Rightarrow> VNone
                | Some x \<Rightarrow> VDateTime (DateTime x (Time 0 0 0 0)))
      \<and> stored ''next_renewal_date'' =
          Some (case c_next_renewal_date c of None \<Rightarrow> VNone
                | Some x \<Rightarrow> VDateTime (DateTime x (Time 0 0 0 0)))
      \<and> (\<exists>r. get_service new_id (db @ [stored]) = Inr r
            \<and> creation_date r = c_creation_date c
            \<and> last_renewal_date r = c_last_renewal_date c
            \<and> next_renewal_date r = c_next_renewal_date c)
      \<and> (\<forall>rs. get_services (db @ [stored]) = Inr rs \<longrightarrow>
            (\<forall>r \<in> set rs. id_field r = new_id \<longrightarrow>
               creation_date r = c_creation_date c
               \<and> last_renewal_date r = c_last_renewal_date c
               \<and> next_renewal_date r = c_next_renewal_date c))
      \<and> (wf_db db \<and> length (filter (\<lambda>d. d ''is_deleted'' = Some (VBool False)) db) < 1000 \<longrightarrow>
            (\<exists>rs. get_services (db @ [stored]) = Inr rs \<and> (\<exists>r \<in> set rs. id_field r = new_id)))"
proof -
  let ?s = "Service_of_create new_id t1 t2 c"
  let ?stored = "map_of (dates_to_datetimes (Service_dict ?s))"
  let ?db' = "db @ [?stored]"
  let ?live = "\<lambda>d::doc. d ''is_deleted'' = Some (VBool False)"
  have store: "snd (create_service new_id t1 t2 c db) = ?db'"
    by (simp add: create_service_def Let_def insert_one_def)
  have valid: "Service_validate ?stored = Inr ?s"
    by (rule Service_validate_stored)
  have dates: "creation_date ?s = c_creation_date c \<and> last_renewal_date ?s = c_last_renewal_date c
      \<and> next_renewal_date ?s = c_next_renewal_date c" and ident: "id_field ?s = new_id"
    by (simp_all add: Service_of_create_def)
  have m: "matches (by_id new_id) ?stored"
    by (simp add: matches_by_id stored_dates)
  from fresh have "\<not> (\<exists>d \<in> set db. matches (by_id new_id) d)"
    by (simp add: matches_by_id)
  then have "find_one (by_id new_id) ?db' = Some ?stored"
    using m by (rule find_one_append_fresh)
  then have "get_service new_id ?db' = Inr ?s"
    by (simp add: get_service_def valid)
  with dates have get: "\<exists>r. get_service new_id ?db' = Inr r
            \<and> creation_date r = c_creation_date c
            \<and> last_renewal_date r = c_last_renewal_date c
            \<and> next_renewal_date r = c_next_renewal_date c"
    by blast
  have listed: "\<forall>rs. get_services ?db' = Inr rs \<longrightarrow>
            (\<forall>r \<in> set rs. id_field r = new_id \<longrightarrow>
               creation_date r = c_creation_date c
               \<and> last_renewal_date r = c_last_renewal_date c
               \<and> next_renewal_date r = c_next_renewal_date c)"
  proof (intro allI impI ballI)
    fix rs r
    assume rs: "get_services ?db' = Inr rs" and r: "r \<in> set rs" and rid: "id_field r = new_id"
    from rs have "list_all2 (\<lambda>d r. Service_validate d = Inr r) (take 1000 (filter ?live ?db')) rs"
      unfolding get_services_eq by (rule map_result_Inr)
    from list_all2_right [OF this r]
    obtain d where d: "d \<in> set (take 1000 (filter ?live ?db'))" "Service_validate d = Inr r"
      by blast
    from d(1) have "d \<in> set (filter ?live ?db')" by (rule in_set_takeD)
    then have "d \<in> set ?db' \<and> d ''is_deleted'' = Some (VBool False)"
      by (simp only: set_filter mem_Collect_eq)
    then have mem: "d \<in> set db \<or> d = ?stored" and dl: "d ''is_deleted'' = Some (VBool False)"
      by (simp_all only: set_append set_simps Un_iff insert_iff empty_iff, blast+)
    from d(2) rid have "d ''id'' = Some (VStr new_id)"
      using Service_validate_id [of d r] by simp
    with fresh dl mem have "d = ?stored" by blast
    with d(2) valid have "r = ?s" by simp
    with dates show "creation_date r = c_creation_date c
               \<and> last_renewal_date r = c_last_renewal_date c
               \<and> next_renewal_date r = c_next_renewal_date c"
      by simp
  qed
  have present: "wf_db db \<and> length (filter ?live db) < 1000 \<longrightarrow>
            (\<exists>rs. get_services ?db' = Inr rs \<and> (\<exists>r \<in> set rs. id_field r = new_id))"
  proof
    assume a: "wf_db db \<and> length (filter ?live db) < 1000"
    then have "wf_db ?db'"
      by (simp add: wf_db_def wf_doc_stored)
    then obtain rs where rs: "get_services ?db' = Inr rs"
      using get_services_total by blast
    then have all2: "list_all2 (\<lambda>d r. Service_validate d = Inr r) (take 1000 (filter ?live ?db')) rs"
      unfolding get_services_eq by (rule map_result_Inr)
    have f: "filter ?live ?db' = filter ?live db @ [?stored]"
      by (simp add: stored_dates)
    from a have "length (filter ?live db @ [?stored]) \<le> 1000"
      by simp
    then have tk: "take 1000 (filter ?live db @ [?stored]) = filter ?live db @ [?stored]"
      by (rule take_all)
    have "?stored \<in> set (take 1000 (filter ?live ?db'))"
      unfolding f tk by simp
    from list_all2_left [OF all2 this] obtain r where "r \<in> set rs" "Service_validate ?stored = Inr r"
      by blast
    with valid ident have "r \<in> set rs \<and> id_field r = new_id"
      by simp
    with rs show "\<exists>rs. get_services ?db' = Inr rs \<and> (\<exists>r \<in> set rs. id_field r = new_id)"
      by blast
  qed
  show ?thesis
    by (intro exI [of _ ?stored] conjI)
      (rule store stored_dates get listed present)+
qed

theorem created_dates_round_trip_witness:
  "\<not> (\<exists>d \<in> set deleted_db. d ''id'' = Some (VStr ''b'') \<and> d ''is_deleted'' = Some (VBool False))
   \<and> (\<exists>stored.
        snd (create_service ''b'' noon noon (example_create ''Domain'' ''active'') deleted_db)
          = deleted_db @ [stored]
        \<and> stored ''creation_date'' = Some (VDateTime (DateTime (Date 2024 1 1) (Time 0 0 0 0)))
        \<and> (\<exists>r. get_service ''b'' (deleted_db @ [stored]) = Inr r
              \<and> creation_date r = Date 2024 1 1
              \<and> last_renewal_date r = None
              \<and> next_renewal_date r = Some (Date 2025 1 1)))"
proof -
  have h: "\<not> (\<exists>d \<in> set deleted_db. d ''id'' = Some (VStr ''b'') \<and> d ''is_deleted'' = Some (VBool False))"
    by code_simp
  from created_dates_round_trip [OF h, of noon noon "example_create ''Domain'' ''active''"]
  obtain stored where
    "snd (create_service ''b'' noon noon (example_create ''Domain'' ''active'') deleted_db)
          = deleted_db @ [stored]"
    "stored ''creation_date'' =
       Some (VDateTime (DateTime (c_creation_date (example_create ''Domain'' ''active'')) (Time 0 0 0 0)))"
    "\<exists>r. get_service ''b'' (deleted_db @ [stored]) = Inr r
            \<and> creation_date r = c_creation_date (example_create ''Domain'' ''active'')
            \<and> last_renewal_date r = c_last_renewal_date (example_create ''Domain'' ''active'')
            \<and> next_renewal_date r = c_next_renewal_date (example_create ''Domain'' ''active'')"
    by blast
  then have "\<exists>stored.
        snd (create_service ''b'' noon noon (example_create ''Domain'' ''active'') deleted_db)
          = deleted_db @ [stored]
        \<and> stored ''creation_date'' = Some (VDateTime (DateTime (Date 2024 1 1) (Time 0 0 0 0)))
        \<and> (\<exists>r. get_service ''b'' (deleted_db @ [stored]) = Inr r
              \<and> creation_date r = Date 2024 1 1
              \<and> last_renewal_date r = None
              \<and> next_renewal_date r = Some (Date 2025 1 1))"
    by (simp add: example_create_def)
  with h show ?thesis by blast
qed

section \<open>Exports\<close>









section \<open>The fee cell of the PDF\<close>











section \<open>Exports, on example data\<close>



end
